theory Spec2Isabelle
  imports Main
begin

section \<open>The Telegram webhook of \<^verbatim>\<open>netlify/functions/telegram-webhook.js\<close>\<close>

text \<open>
  A text is the list of its UTF-16 code units, and a code unit is a \<^typ>\<open>char\<close>: the
  embedding covers the code units U+0000 to U+00FF, where every character lies that the
  program tests for. The reply literals of the source hold a few characters outside
  ASCII; each is written as the bytes the source file has for it, and no function of the
  program inspects them.
\<close>

subsection \<open>String primitives of the language\<close>

text \<open>
  White space as the regular expression class \<^verbatim>\<open>\s\<close> and \<^verbatim>\<open>String.prototype.trim\<close>
  have it: TAB, LF, VT, FF, CR, SPACE and NO-BREAK SPACE (U+00A0).
\<close>

definition is_space :: "char \<Rightarrow> bool" where
  "is_space c \<longleftrightarrow> of_char c \<in> {9, 10, 11, 12, 13, 32, 160 :: nat}"

definition trim :: "string \<Rightarrow> string" where
  "trim s = rev (dropWhile is_space (rev (dropWhile is_space s)))"

text \<open>
  \<^verbatim>\<open>s.split(/\s+/)\<close>: the pieces between the maximal runs of white space. A white
  space character ends a piece, and the run it starts is skipped. A run at the start or
  at the end leaves an empty piece there, and the empty text has the one piece \<^verbatim>\<open>''\<close>,
  so the result is never empty.
\<close>

function split_ws :: "string \<Rightarrow> string list" where
  "split_ws [] = [[]]"
| "split_ws (c # cs) =
     (if is_space c then [] # split_ws (dropWhile is_space cs)
      else (case split_ws cs of
              [] \<Rightarrow> [[c]]
            | t # ts \<Rightarrow> (c # t) # ts))"
  by pat_completeness auto
termination
  by (relation "measure length") (auto intro: le_imp_less_Suc length_dropWhile_le)

text \<open>\<^verbatim>\<open>s.split(',')\<close>: the pieces between the commas.\<close>

fun split_comma :: "string \<Rightarrow> string list" where
  "split_comma [] = [[]]"
| "split_comma (c # cs) =
     (if c = CHR '','' then [] # split_comma cs
      else (case split_comma cs of
              [] \<Rightarrow> [[c]]
            | t # ts \<Rightarrow> (c # t) # ts))"

text \<open>
  \<^verbatim>\<open>toLowerCase\<close> on the code units up to U+00FF: A to Z, and the capital letters
  U+00C0 to U+00DE except the multiplication sign U+00D7, move up by 32. Bit 5 (of
  value 32) is clear in every code unit of both ranges, so adding 32 is setting that bit.
\<close>

definition lower_char :: "char \<Rightarrow> char" where
  "lower_char c =
     (let n = (of_char c :: nat)
      in if (65 \<le> n \<and> n \<le> 90) \<or> (192 \<le> n \<and> n \<le> 222 \<and> n \<noteq> 215)
         then (case c of Char b0 b1 b2 b3 b4 b5 b6 b7 \<Rightarrow> Char b0 b1 b2 b3 b4 True b6 b7)
         else c)"

definition toLowerCase :: "string \<Rightarrow> string" where
  "toLowerCase s = map lower_char s"

text \<open>\<^verbatim>\<open>xs.join(sep)\<close>.\<close>

fun join :: "string \<Rightarrow> string list \<Rightarrow> string" where
  "join sep [] = []"
| "join sep [x] = x"
| "join sep (x # y # ys) = x @ sep @ join sep (y # ys)"

text \<open>\<^verbatim>\<open>text.startsWith('/')\<close>.\<close>

definition startsWith_slash :: "string \<Rightarrow> bool" where
  "startsWith_slash s = (case s of [] \<Rightarrow> False | c # _ \<Rightarrow> c = CHR ''/'')"

text \<open>
  \<^verbatim>\<open>String(n)\<close> for an integer \<open>n\<close>: its decimal digits, with a minus sign when negative.
  Telegram's identifiers are integers of at most 52 bits, for which the language prints
  all digits.
\<close>

definition digit_char :: "nat \<Rightarrow> char" where
  "digit_char d = ''0123456789'' ! d"

fun digits :: "nat \<Rightarrow> string" where
  "digits n = (if n < 10 then [digit_char n] else digits (n div 10) @ [digit_char (n mod 10)])"

declare digits.simps [simp del]

definition String_int :: "int \<Rightarrow> string" where
  "String_int i = (if i < 0 then CHR ''-'' # digits (nat (- i)) else digits (nat i))"

text \<open>
  \<^verbatim>\<open>String(userId)\<close>, where the sender's identifier is an integer or \<^verbatim>\<open>null\<close>.
\<close>

definition String_id :: "int option \<Rightarrow> string" where
  "String_id u = (case u of None \<Rightarrow> ''null'' | Some i \<Rightarrow> String_int i)"

text \<open>
  Truthiness of a value that is a string or is absent (\<^verbatim>\<open>undefined\<close>): present and
  not empty.
\<close>

definition truthy :: "string option \<Rightarrow> bool" where
  "truthy v = (case v of None \<Rightarrow> False | Some s \<Rightarrow> s \<noteq> [])"

text \<open>\<^verbatim>\<open>v || d\<close> for such a value.\<close>

definition or_else :: "string option \<Rightarrow> string \<Rightarrow> string" where
  "or_else v d = (case v of None \<Rightarrow> d | Some s \<Rightarrow> if s = [] then d else s)"

subsection \<open>The rate limiter\<close>

type_synonym chatid = int

record rate_window =
  count :: nat
  resetAt :: int

definition RATE_LIMIT_WINDOW_MS :: int where
  "RATE_LIMIT_WINDOW_MS = 5000"

definition RATE_LIMIT_MAX :: nat where
  "RATE_LIMIT_MAX = 3"

text \<open>
  \<^verbatim>\<open>allowRate(chatId)\<close> at the clock reading \<open>now\<close> (\<^verbatim>\<open>Date.now()\<close>), on the map
  \<^verbatim>\<open>rateMap\<close>; it returns the answer and the map as the call leaves it. Nothing in the
  body of the source's \<^verbatim>\<open>try\<close> can throw, so its \<^verbatim>\<open>catch\<close> has no branch here.
\<close>

definition allowRate ::
  "int \<Rightarrow> chatid \<Rightarrow> (chatid \<rightharpoonup> rate_window) \<Rightarrow> bool \<times> (chatid \<rightharpoonup> rate_window)" where
  "allowRate now chatId rateMap =
     (case rateMap chatId of
        None \<Rightarrow> (True, rateMap(chatId \<mapsto> \<lparr>count = 1, resetAt = now + RATE_LIMIT_WINDOW_MS\<rparr>))
      | Some data \<Rightarrow>
          if now > resetAt data
          then (True, rateMap(chatId \<mapsto> \<lparr>count = 1, resetAt = now + RATE_LIMIT_WINDOW_MS\<rparr>))
          else if count data < RATE_LIMIT_MAX
          then (True, rateMap(chatId \<mapsto> data\<lparr>count := count data + 1\<rparr>))
          else (False, rateMap))"

subsection \<open>Configuration and the outside world\<close>

text \<open>
  The environment variables the decisions read. \<^verbatim>\<open>TELEGRAM_BOT_TOKEN\<close> and
  \<^verbatim>\<open>AIRTABLE_TABLE\<close> only enter the addresses of the requests and are left out.
\<close>

record config =
  AIRTABLE_API_KEY :: "string option"
  AIRTABLE_BASE_ID :: "string option"
  TELEGRAM_ADMIN_IDS :: "string option"

definition ADMIN_IDS :: "config \<Rightarrow> string list" where
  "ADMIN_IDS cfg =
     filter (\<lambda>s. s \<noteq> []) (map trim (split_comma (or_else (TELEGRAM_ADMIN_IDS cfg) [])))"

definition ALLOWED_PROVIDERS :: "string list" where
  "ALLOWED_PROVIDERS = [''jazzcash'', ''easypaisa'']"

text \<open>
  How a remote service answers one \<^verbatim>\<open>fetch\<close>: with a success status, with another
  status, or not at all (the promise rejects).
\<close>

datatype net = Up | HttpFail | NetDown

text \<open>
  What one invocation finds outside: the clock, and how Telegram and Airtable answer the
  request that follows \<open>k\<close> earlier ones.
\<close>

record env =
  now :: int
  telegram :: "nat \<Rightarrow> net"
  airtable :: "nat \<Rightarrow> net"

datatype error = FetchError | TypeError | ConfigError

record airtable_record =
  rec_id :: nat
  Provider :: "string option"
  Details :: "string option"

text \<open>The body of a \<^verbatim>\<open>sendMessage\<close> request.\<close>

record send_request =
  chat_id :: chatid
  msg_text :: string
  parse_mode :: "string option"

text \<open>
  The state the program reads and writes: its own \<^verbatim>\<open>rateMap\<close>, the records of the
  Airtable table in the order of the view, the number of requests Airtable has received,
  and the \<^verbatim>\<open>sendMessage\<close> requests made so far, oldest first.
\<close>

record world =
  rateMap :: "chatid \<rightharpoonup> rate_window"
  records :: "airtable_record list"
  requests :: nat
  sent :: "send_request list"

text \<open>
  \<^verbatim>\<open>tg('sendMessage', body)\<close>. A status other than success is logged and does not
  throw; a rejected \<^verbatim>\<open>fetch\<close> does.
\<close>

definition tg :: "env \<Rightarrow> send_request \<Rightarrow> world \<Rightarrow> (error + unit) \<times> world" where
  "tg e body w =
     (let w' = w\<lparr>sent := sent w @ [body]\<rparr>
      in case telegram e (length (sent w)) of
           Up \<Rightarrow> (Inr (), w')
         | HttpFail \<Rightarrow> (Inr (), w')
         | NetDown \<Rightarrow> (Inl FetchError, w'))"

definition plain :: "chatid \<Rightarrow> string \<Rightarrow> send_request" where
  "plain c t = \<lparr>chat_id = c, msg_text = t, parse_mode = None\<rparr>"

definition markdown :: "chatid \<Rightarrow> string \<Rightarrow> send_request" where
  "markdown c t = \<lparr>chat_id = c, msg_text = t, parse_mode = Some ''Markdown''\<rparr>"

subsection \<open>The Airtable service\<close>

text \<open>What the program reads of a response: \<^verbatim>\<open>res.ok\<close> and the \<^verbatim>\<open>records\<close> of its JSON.\<close>

record fetch_response =
  ok :: bool
  json_records :: "airtable_record list option"

text \<open>
  Modelled from the spec: the tabular record store is a service outside the repository,
  with the operations query by exact-match filter, list records up to a page size,
  patch a record by its id and create a record. A list request answers with the records
  that satisfy the filter, in the order of the view, up to the page size; a request that
  fails answers with a body that has no \<^verbatim>\<open>records\<close>.
\<close>

definition airtable_list ::
  "env \<Rightarrow> nat \<Rightarrow> (airtable_record \<Rightarrow> bool) \<Rightarrow> world \<Rightarrow> (error + fetch_response) \<times> world" where
  "airtable_list e pageSize matches w =
     (let w' = w\<lparr>requests := Suc (requests w)\<rparr>
      in case airtable e (requests w) of
           Up \<Rightarrow> (Inr \<lparr>ok = True,
                      json_records = Some (take pageSize (filter matches (records w)))\<rparr>, w')
         | HttpFail \<Rightarrow> (Inr \<lparr>ok = False, json_records = None\<rparr>, w')
         | NetDown \<Rightarrow> (Inl FetchError, w'))"

text \<open>
  Modelled from the spec: patching a record by its id writes the two fields of the
  record that has the id and leaves every other record as it is.
\<close>

definition patched :: "nat \<Rightarrow> string \<Rightarrow> string \<Rightarrow> airtable_record \<Rightarrow> airtable_record" where
  "patched rid provider details r =
     (if rec_id r = rid then r\<lparr>Provider := Some provider, Details := Some details\<rparr> else r)"

definition airtable_patch ::
  "env \<Rightarrow> nat \<Rightarrow> string \<Rightarrow> string \<Rightarrow> world \<Rightarrow> (error + unit) \<times> world" where
  "airtable_patch e rid provider details w =
     (let w' = w\<lparr>requests := Suc (requests w)\<rparr>
      in case airtable e (requests w) of
           Up \<Rightarrow> (Inr (), w'\<lparr>records := map (patched rid provider details) (records w)\<rparr>)
         | HttpFail \<Rightarrow> (Inr (), w')
         | NetDown \<Rightarrow> (Inl FetchError, w'))"

definition fresh_id :: "airtable_record list \<Rightarrow> nat" where
  "fresh_id rs = Suc (fold max (map rec_id rs) 0)"

text \<open>
  Modelled from the spec: creating a record adds one with the two fields and an id no
  record has yet, after the others.
\<close>

definition airtable_create ::
  "env \<Rightarrow> string \<Rightarrow> string \<Rightarrow> world \<Rightarrow> (error + unit) \<times> world" where
  "airtable_create e provider details w =
     (let w' = w\<lparr>requests := Suc (requests w)\<rparr>
      in case airtable e (requests w) of
           Up \<Rightarrow> (Inr (),
                  w'\<lparr>records :=
                       records w @
                       [\<lparr>rec_id = fresh_id (records w), Provider = Some provider,
                         Details = Some details\<rparr>]\<rparr>)
         | HttpFail \<Rightarrow> (Inr (), w')
         | NetDown \<Rightarrow> (Inl FetchError, w'))"

text \<open>\<^verbatim>\<open>x || []\<close> for a list that may be absent.\<close>

definition or_nil :: "'a list option \<Rightarrow> 'a list" where
  "or_nil v = (case v of None \<Rightarrow> [] | Some xs \<Rightarrow> xs)"

definition configured :: "config \<Rightarrow> bool" where
  "configured cfg \<longleftrightarrow> truthy (AIRTABLE_API_KEY cfg) \<and> truthy (AIRTABLE_BASE_ID cfg)"

text \<open>\<^verbatim>\<open>airtableGetAll()\<close>: one list request with \<^verbatim>\<open>pageSize=50\<close> and no filter.\<close>

definition airtableGetAll ::
  "config \<Rightarrow> env \<Rightarrow> world \<Rightarrow> (error + airtable_record list) \<times> world" where
  "airtableGetAll cfg e w =
     (if \<not> truthy (AIRTABLE_API_KEY cfg) \<or> \<not> truthy (AIRTABLE_BASE_ID cfg) then (Inr [], w)
      else case airtable_list e 50 (\<lambda>r. True) w of
             (Inl err, w1) \<Rightarrow> (Inl err, w1)
           | (Inr res, w1) \<Rightarrow>
               if \<not> ok res then (Inr [], w1) else (Inr (or_nil (json_records res)), w1))"

text \<open>
  \<^verbatim>\<open>airtableCreateOrUpdate(provider, details)\<close>. The find request carries the formula
  \<^verbatim>\<open>AND({Provider}="provider")\<close> and names no page size, for which the service takes 100.
  The status of the find response is not looked at; a body without \<^verbatim>\<open>records\<close>, or
  with none in it, leads to the create request.
\<close>

definition airtableCreateOrUpdate ::
  "config \<Rightarrow> env \<Rightarrow> string \<Rightarrow> string \<Rightarrow> world \<Rightarrow> (error + unit) \<times> world" where
  "airtableCreateOrUpdate cfg e provider details w =
     (if \<not> truthy (AIRTABLE_API_KEY cfg) \<or> \<not> truthy (AIRTABLE_BASE_ID cfg)
      then (Inl ConfigError, w)
      else case airtable_list e 100 (\<lambda>r. Provider r = Some provider) w of
             (Inl err, w1) \<Rightarrow> (Inl err, w1)
           | (Inr foundJson, w1) \<Rightarrow>
               (case or_nil (json_records foundJson) of
                  [] \<Rightarrow> airtable_create e provider details w1
                | rec # rest \<Rightarrow> airtable_patch e (rec_id rec) provider details w1))"

subsection \<open>Reply texts\<close>

definition nl :: string where
  "nl = [CHR 0x0A]"

text \<open>The three characters outside ASCII that the literals hold, as the file's bytes.\<close>

definition lit_dash :: string where
  "lit_dash = [CHR 0xC3, CHR 0xA2, CHR 0xE2, CHR 0x82, CHR 0xAC, CHR 0xE2, CHR 0x80, CHR 0x9D]"

definition lit_smile :: string where
  "lit_smile =
     [CHR 0xC3, CHR 0xB0, CHR 0xC5, CHR 0xB8, CHR 0xCB, CHR 0x9C, CHR 0xE2, CHR 0x80, CHR 0xA6]"

definition lit_check :: string where
  "lit_check = [CHR 0xC3, CHR 0xA2, CHR 0xC5, CHR 0x93, CHR 0xE2, CHR 0x80, CHR 0xA6]"

text \<open>
  \<^verbatim>\<open>safeText(s)\<close>: \<^verbatim>\<open>String(s || '')\<close> without the characters of the class
  \<^verbatim>\<open>[*_`[\]]\<close>.
\<close>

definition markup_char :: "char \<Rightarrow> bool" where
  "markup_char c \<longleftrightarrow> c \<in> {CHR ''*'', CHR ''_'', CHR 0x60, CHR ''['', CHR '']''}"

definition safeText :: "string option \<Rightarrow> string" where
  "safeText s = filter (\<lambda>c. \<not> markup_char c) (or_else s [])"

definition slow_down_text :: string where
  "slow_down_text =
     ''Slow down, boss '' @ lit_dash @ '' too many commands at once. '' @ lit_smile"

definition start_reply :: string where
  "start_reply = join nl
     [''*Welcome to VHub '' @ lit_dash @ '' Premium Edition!*'',
      [],
      ''Available commands:'',
      ''/start '' @ lit_dash @ '' show this help'',
      ''/profile '' @ lit_dash @ '' view your basic profile'',
      ''/setpayment <provider> <details> '' @ lit_dash @ '' admin only'',
      ''/getpayments '' @ lit_dash @ '' list payment methods'',
      [],
      ''Providers: jazzcash, easypaisa'']"

definition only_admin_text :: string where
  "only_admin_text = ''Only admin(s) can use /setpayment.''"

definition usage_text :: string where
  "usage_text =
     ''Usage: /setpayment <provider> <details>'' @ nl @
     ''Example: /setpayment easypaisa 03xx-xxxxxxx''"

definition invalid_provider_text :: string where
  "invalid_provider_text = ''Invalid provider. Allowed: '' @ join '', '' ALLOWED_PROVIDERS"

definition updated_text :: "string \<Rightarrow> string" where
  "updated_text provider = lit_check @ '' Updated *'' @ provider @ ''* details.''"

definition configured_text :: "string \<Rightarrow> string \<Rightarrow> string" where
  "configured_text provider details = ''Configured '' @ provider @ '': '' @ details"

definition failed_update_text :: string where
  "failed_update_text =
     ''Failed to update payment details '' @ lit_dash @ '' check server logs.''"

definition none_configured_text :: string where
  "none_configured_text = ''No payment details configured yet.''"

definition error_reading_text :: string where
  "error_reading_text = ''Error reading payment details.''"

definition unknown_command_text :: string where
  "unknown_command_text = ''Unknown command. Use /start to see available commands.''"

definition default_text :: string where
  "default_text = ''I only understand a few commands for now. Try /start.''"

subsection \<open>Telegram updates\<close>

record tg_user =
  user_id :: int
  first_name :: "string option"
  username :: "string option"

record tg_chat =
  chat_ident :: int

record tg_message =
  message_text :: "string option"
  message_chat :: "tg_chat option"
  message_from :: "tg_user option"

record tg_callback_query =
  cq_message :: "tg_message option"

record update =
  message :: "tg_message option"
  edited_message :: "tg_message option"
  callback_query :: "tg_callback_query option"

subsection \<open>The command router\<close>

text \<open>
  \<^verbatim>\<open>profileMsg\<close>: the name is \<^verbatim>\<open>first_name\<close>, else \<^verbatim>\<open>username\<close>, else \<^verbatim>\<open>'User'\<close>.
\<close>

definition profile_name :: "tg_message \<Rightarrow> string" where
  "profile_name m =
     (case message_from m of
        None \<Rightarrow> ''User''
      | Some u \<Rightarrow> or_else (first_name u) (or_else (username u) ''User''))"

definition profileMsg :: "int option \<Rightarrow> tg_message \<Rightarrow> string" where
  "profileMsg userId m =
     ''*Profile*'' @ nl @
     ''Name: '' @ safeText (Some (profile_name m)) @ nl @
     ''ID: '' @ String_id userId @ nl @
     ''Telegram: '' @
     (case message_from m of
        None \<Rightarrow> lit_dash
      | Some u \<Rightarrow> if truthy (username u) then ''@'' @ safeText (username u) else lit_dash)"

text \<open>The text \<^verbatim>\<open>out\<close> of the payments listing: a header and one line for each record.\<close>

definition payment_line :: "airtable_record \<Rightarrow> string" where
  "payment_line r =
     nl @ ''- *'' @ safeText (Some (or_else (Provider r) ''unknown'')) @ ''*: '' @
     safeText (Some (or_else (Details r) []))"

definition payments_out :: "airtable_record list \<Rightarrow> string" where
  "payments_out rs = ''*Current Payment Details:*'' @ nl @ concat (map payment_line rs)"

definition isAdmin :: "config \<Rightarrow> int option \<Rightarrow> bool" where
  "isAdmin cfg userId =
     (if ADMIN_IDS cfg \<noteq> [] then String_id userId \<in> set (ADMIN_IDS cfg) else True)"

text \<open>
  The branch \<^verbatim>\<open>/setpayment <provider> <details>\<close> of \<^verbatim>\<open>handleCommand\<close>. The last
  \<^verbatim>\<open>case\<close> is the \<^verbatim>\<open>try\<close> and its \<^verbatim>\<open>catch\<close>.
\<close>

definition cmd_setpayment ::
  "config \<Rightarrow> env \<Rightarrow> chatid \<Rightarrow> int option \<Rightarrow> string list \<Rightarrow> world \<Rightarrow> (error + unit) \<times> world" where
  "cmd_setpayment cfg e chatId userId parts w =
     (if \<not> isAdmin cfg userId then tg e (plain chatId only_admin_text) w
      else if length parts < 3 then tg e (plain chatId usage_text) w
      else
        let provider = toLowerCase (parts ! 1)
        in if provider \<notin> set ALLOWED_PROVIDERS
           then tg e (plain chatId invalid_provider_text) w
           else
             let details = join '' '' (drop 2 parts)
             in case (if truthy (AIRTABLE_API_KEY cfg) \<and> truthy (AIRTABLE_BASE_ID cfg)
                      then (case airtableCreateOrUpdate cfg e provider details w of
                              (Inl err, w1) \<Rightarrow> (Inl err, w1)
                            | (Inr u, w1) \<Rightarrow> tg e (markdown chatId (updated_text provider)) w1)
                      else tg e (plain chatId (configured_text provider details)) w) of
                  (Inl err, w2) \<Rightarrow> tg e (plain chatId failed_update_text) w2
                | (Inr u, w2) \<Rightarrow> (Inr u, w2))"

text \<open>The branch \<^verbatim>\<open>/getpayments\<close> of \<^verbatim>\<open>handleCommand\<close>, again a \<^verbatim>\<open>try\<close> and its \<^verbatim>\<open>catch\<close>.\<close>

definition cmd_getpayments ::
  "config \<Rightarrow> env \<Rightarrow> chatid \<Rightarrow> world \<Rightarrow> (error + unit) \<times> world" where
  "cmd_getpayments cfg e chatId w =
     (case (case airtableGetAll cfg e w of
              (Inl err, w1) \<Rightarrow> (Inl err, w1)
            | (Inr rs, w1) \<Rightarrow>
                if rs = [] then tg e (plain chatId none_configured_text) w1
                else tg e (markdown chatId (payments_out rs)) w1) of
        (Inl err, w2) \<Rightarrow> tg e (plain chatId error_reading_text) w2
      | (Inr u, w2) \<Rightarrow> (Inr u, w2))"

text \<open>
  \<^verbatim>\<open>handleCommand(chatId, userId, text, message)\<close>, the message being \<open>msg\<close> here.
  \<^verbatim>\<open>parts[0]\<close> is the head of a list that \<^verbatim>\<open>split\<close> never leaves empty.
\<close>

definition handleCommand ::
  "config \<Rightarrow> env \<Rightarrow> chatid \<Rightarrow> int option \<Rightarrow> string \<Rightarrow> tg_message \<Rightarrow> world
     \<Rightarrow> (error + unit) \<times> world" where
  "handleCommand cfg e chatId userId text msg w =
     (case allowRate (now e) chatId (rateMap w) of
        (allowed, rateMap') \<Rightarrow>
          let w0 = w\<lparr>rateMap := rateMap'\<rparr>
          in if \<not> allowed then tg e (plain chatId slow_down_text) w0
             else
               let parts = split_ws (trim text);
                   cmd = toLowerCase (hd parts)
               in if cmd = ''/start'' \<or> cmd = ''start''
                  then tg e (markdown chatId start_reply) w0
                  else if cmd = ''/profile'' \<or> cmd = ''/me''
                  then tg e (markdown chatId (profileMsg userId msg)) w0
                  else if cmd = ''/setpayment'' \<or> cmd = ''setpayment''
                  then cmd_setpayment cfg e chatId userId parts w0
                  else if cmd = ''/getpayments'' \<or> cmd = ''/payments''
                  then cmd_getpayments cfg e chatId w0
                  else if startsWith_slash text
                  then tg e (plain chatId unknown_command_text) w0
                  else tg e (plain chatId default_text) w0)"

subsection \<open>The Netlify handler\<close>

record event =
  httpMethod :: string
  body :: string

record http_result =
  statusCode :: nat
  result_body :: string

definition ok_200 :: http_result where
  "ok_200 = \<lparr>statusCode = 200, result_body = ''ok''\<rparr>"

text \<open>
  What \<^verbatim>\<open>JSON.parse(event.body)\<close> gives: it throws, it gives \<^verbatim>\<open>null\<close>, or it gives a
  value whose properties the handler reads, an update of Telegram's schema.
\<close>

datatype parsed = SyntaxError | JsonNull | JsonUpdate update

definition empty_update :: update where
  "empty_update = \<lparr>message = None, edited_message = None, callback_query = None\<rparr>"

definition empty_message :: tg_message where
  "empty_message = \<lparr>message_text = None, message_chat = None, message_from = None\<rparr>"

text \<open>
  \<^verbatim>\<open>update.message || update.edited_message ||
  (update.callback_query && update.callback_query.message) || {}\<close>
\<close>

definition message_of :: "update \<Rightarrow> tg_message" where
  "message_of u =
     (case message u of
        Some m \<Rightarrow> m
      | None \<Rightarrow>
          (case edited_message u of
             Some m \<Rightarrow> m
           | None \<Rightarrow>
               (case callback_query u of
                  None \<Rightarrow> empty_message
                | Some q \<Rightarrow> (case cq_message q of None \<Rightarrow> empty_message | Some m \<Rightarrow> m))))"

text \<open>\<^verbatim>\<open>a || b || null\<close> on identifiers: the first that is present and not 0.\<close>

definition first_truthy :: "int option \<Rightarrow> int option \<Rightarrow> int option" where
  "first_truthy a b =
     (let b' = (case b of None \<Rightarrow> None | Some j \<Rightarrow> if j \<noteq> 0 then Some j else None)
      in case a of
           None \<Rightarrow> b'
         | Some i \<Rightarrow> if i \<noteq> 0 then Some i else b')"

text \<open>\<^verbatim>\<open>m.chat && m.chat.id\<close> and \<^verbatim>\<open>m.from && m.from.id\<close>.\<close>

definition chat_id_in :: "tg_message \<Rightarrow> int option" where
  "chat_id_in m = map_option chat_ident (message_chat m)"

definition from_id_in :: "tg_message \<Rightarrow> int option" where
  "from_id_in m = map_option user_id (message_from m)"

definition chatId_of :: "update \<Rightarrow> int option" where
  "chatId_of u =
     first_truthy (chat_id_in (message_of u))
       (case message u of None \<Rightarrow> None | Some m \<Rightarrow> chat_id_in m)"

definition fromId_of :: "update \<Rightarrow> int option" where
  "fromId_of u =
     first_truthy (from_id_in (message_of u))
       (case message u of None \<Rightarrow> None | Some m \<Rightarrow> from_id_in m)"

text \<open>The handler from the point where the update is at hand.\<close>

definition process_update ::
  "config \<Rightarrow> env \<Rightarrow> update \<Rightarrow> world \<Rightarrow> (error + http_result) \<times> world" where
  "process_update cfg e u w =
     (let msg = message_of u;
          text = trim (or_else (message_text msg) []);
          chatId = chatId_of u;
          fromId = fromId_of u
      in case chatId of
           None \<Rightarrow> (Inr ok_200, w)
         | Some c \<Rightarrow>
             (case handleCommand cfg e c fromId text msg w of
                (Inl err, w1) \<Rightarrow> (Inl err, w1)
              | (Inr u, w1) \<Rightarrow> (Inr ok_200, w1)))"

text \<open>
  The body of the handler's \<^verbatim>\<open>try\<close>, given what \<^verbatim>\<open>JSON.parse\<close> makes of the event's
  body. A body that does not parse is taken as \<^verbatim>\<open>{}\<close>; reading a property of \<^verbatim>\<open>null\<close>
  throws.
\<close>

definition handler_try ::
  "config \<Rightarrow> env \<Rightarrow> (string \<Rightarrow> parsed) \<Rightarrow> event \<Rightarrow> world \<Rightarrow> (error + http_result) \<times> world" where
  "handler_try cfg e JSON_parse ev w =
     (if httpMethod ev \<noteq> ''POST'' then (Inr ok_200, w)
      else case JSON_parse (body ev) of
             SyntaxError \<Rightarrow> process_update cfg e empty_update w
           | JsonNull \<Rightarrow> (Inl TypeError, w)
           | JsonUpdate u \<Rightarrow> process_update cfg e u w)"

text \<open>\<^verbatim>\<open>exports.handler\<close>: the \<^verbatim>\<open>try\<close> and the \<^verbatim>\<open>catch\<close> around it.\<close>

definition handler ::
  "config \<Rightarrow> env \<Rightarrow> (string \<Rightarrow> parsed) \<Rightarrow> event \<Rightarrow> world \<Rightarrow> (error + http_result) \<times> world" where
  "handler cfg e JSON_parse ev w =
     (case handler_try cfg e JSON_parse ev w of
        (Inl err, w1) \<Rightarrow> (Inr ok_200, w1)
      | (Inr r, w1) \<Rightarrow> (Inr r, w1))"

subsection \<open>Runs, invariants and sample inputs\<close>

text \<open>The answers of successive calls of \<^verbatim>\<open>allowRate\<close> for one chat, at the given clock readings.\<close>

fun allowRate_calls :: "int list \<Rightarrow> chatid \<Rightarrow> (chatid \<rightharpoonup> rate_window) \<Rightarrow> bool list" where
  "allowRate_calls [] c m = []"
| "allowRate_calls (t # ts) c m =
     (case allowRate t c m of (allowed, m') \<Rightarrow> allowed # allowRate_calls ts c m')"

text \<open>Every window of the map counts at least one and at most \<^verbatim>\<open>RATE_LIMIT_MAX\<close> messages.\<close>

definition rate_inv :: "(chatid \<rightharpoonup> rate_window) \<Rightarrow> bool" where
  "rate_inv m \<longleftrightarrow> (\<forall>c d. m c = Some d \<longrightarrow> 1 \<le> count d \<and> count d \<le> RATE_LIMIT_MAX)"

text \<open>
  The first piece of a text between white space: what stands before the first white
  space character, once the white space at the start is dropped.
\<close>

definition first_token :: "string \<Rightarrow> string" where
  "first_token text = takeWhile (\<lambda>c. \<not> is_space c) (dropWhile is_space text)"

text \<open>
  The table as the program means to keep it: no two records share an id, and no provider
  has more than one record.
\<close>

definition store_ok :: "airtable_record list \<Rightarrow> bool" where
  "store_ok rs \<longleftrightarrow>
     distinct (map rec_id rs) \<and> (\<forall>p. length (filter (\<lambda>r. Provider r = Some p) rs) \<le> 1)"

text \<open>
  The table after a find and the patch or create that follows it, when Airtable answers
  both requests with success.
\<close>

definition upserted :: "string \<Rightarrow> string \<Rightarrow> airtable_record list \<Rightarrow> airtable_record list" where
  "upserted p d rs =
     (case filter (\<lambda>r. Provider r = Some p) rs of
        [] \<Rightarrow> rs @ [\<lparr>rec_id = fresh_id rs, Provider = Some p, Details = Some d\<rparr>]
      | r0 # rest \<Rightarrow> map (patched (rec_id r0) p d) rs)"

text \<open>
  Sample inputs: a deployment without Airtable and without an admin list, one with both
  (admins 7 and 8), an outside world where every request succeeds, one where no request
  gets through, the state of a fresh process with an empty table, and a sender and a
  text message of a chat.
\<close>

definition open_config :: config where
  "open_config = \<lparr>AIRTABLE_API_KEY = None, AIRTABLE_BASE_ID = None, TELEGRAM_ADMIN_IDS = None\<rparr>"

definition store_config :: config where
  "store_config =
     \<lparr>AIRTABLE_API_KEY = Some ''key'', AIRTABLE_BASE_ID = Some ''app1'',
      TELEGRAM_ADMIN_IDS = Some ''7, 8''\<rparr>"

definition fine_env :: env where
  "fine_env = \<lparr>now = 1000, telegram = (\<lambda>k. Up), airtable = (\<lambda>k. Up)\<rparr>"

definition offline_env :: env where
  "offline_env = \<lparr>now = 1000, telegram = (\<lambda>k. NetDown), airtable = (\<lambda>k. NetDown)\<rparr>"

definition fresh_world :: world where
  "fresh_world = \<lparr>rateMap = Map.empty, records = [], requests = 0, sent = []\<rparr>"

definition sender :: "int \<Rightarrow> string \<Rightarrow> tg_user" where
  "sender i name = \<lparr>user_id = i, first_name = None, username = Some name\<rparr>"

definition text_message :: "int \<Rightarrow> tg_user \<Rightarrow> string \<Rightarrow> tg_message" where
  "text_message c u t =
     \<lparr>message_text = Some t, message_chat = Some \<lparr>chat_ident = c\<rparr>, message_from = Some u\<rparr>"

section \<open>Properties of the rate limiter\<close>

lemma allowRate_calls_in_window:
  assumes "m c = Some d" and "count d \<le> RATE_LIMIT_MAX"
    and "\<forall>t \<in> set ts. t \<le> resetAt d" and "resetAt d < t'"
  shows "allowRate_calls (ts @ [t']) c m =
           replicate (min (length ts) (RATE_LIMIT_MAX - count d)) True @
           replicate (length ts - (RATE_LIMIT_MAX - count d)) False @ [True]"
  using assms
proof (induction ts arbitrary: m d)
  case Nil
  then show ?case by (simp add: allowRate_def)
next
  case (Cons t ts)
  show ?case
  proof (cases "count d < RATE_LIMIT_MAX")
    case True
    let ?d = "d\<lparr>count := count d + 1\<rparr>"
    let ?m = "m(c \<mapsto> ?d)"
    have step: "allowRate t c m = (True, ?m)"
      using Cons.prems True by (simp add: allowRate_def)
    have "allowRate_calls (ts @ [t']) c ?m =
           replicate (min (length ts) (RATE_LIMIT_MAX - count ?d)) True @
           replicate (length ts - (RATE_LIMIT_MAX - count ?d)) False @ [True]"
      using Cons.prems True by (intro Cons.IH) auto
    moreover have "min (length (t # ts)) (RATE_LIMIT_MAX - count d) =
        Suc (min (length ts) (RATE_LIMIT_MAX - count ?d))"
      using True by auto
    moreover have "length (t # ts) - (RATE_LIMIT_MAX - count d) =
        length ts - (RATE_LIMIT_MAX - count ?d)"
      using True by auto
    ultimately show ?thesis using step by simp
  next
    case False
    have step: "allowRate t c m = (False, m)"
      using Cons.prems False by (simp add: allowRate_def)
    have "allowRate_calls (ts @ [t']) c m =
           replicate (min (length ts) (RATE_LIMIT_MAX - count d)) True @
           replicate (length ts - (RATE_LIMIT_MAX - count d)) False @ [True]"
      using Cons.prems by (intro Cons.IH) auto
    then show ?thesis using step False Cons.prems(2)
      by (simp add: replicate_app_Cons_same)
  qed
qed

text \<open>
  Claim C2. Let a chat have no window, or one whose \<^verbatim>\<open>resetAt\<close> lies before the clock
  reading \<open>t0\<close>. A call at \<open>t0\<close> opens a window that ends at \<open>t0 + 5000\<close>. Of that call and
  any further calls at readings \<open>ts\<close> up to the end of the window, the first three are
  allowed and every later one is refused; the first call at a reading \<open>t'\<close> after the end
  of the window is allowed again.
\<close>

theorem allowRate_window:
  assumes "m c = None \<or> (\<exists>d. m c = Some d \<and> resetAt d < t0)"
    and "\<forall>t \<in> set ts. t \<le> t0 + RATE_LIMIT_WINDOW_MS"
    and "t0 + RATE_LIMIT_WINDOW_MS < t'"
  shows "allowRate_calls (t0 # ts @ [t']) c m =
           True # replicate (min (length ts) (RATE_LIMIT_MAX - 1)) True @
           replicate (length ts - (RATE_LIMIT_MAX - 1)) False @ [True]"
proof -
  let ?d = "\<lparr>count = 1, resetAt = t0 + RATE_LIMIT_WINDOW_MS\<rparr>"
  have step: "allowRate t0 c m = (True, m(c \<mapsto> ?d))"
    using assms(1) by (auto simp add: allowRate_def)
  have "allowRate_calls (ts @ [t']) c (m(c \<mapsto> ?d)) =
           replicate (min (length ts) (RATE_LIMIT_MAX - count ?d)) True @
           replicate (length ts - (RATE_LIMIT_MAX - count ?d)) False @ [True]"
    using assms(2,3) by (intro allowRate_calls_in_window) (auto simp add: RATE_LIMIT_MAX_def)
  then show ?thesis using step by simp
qed

theorem allowRate_window_witness:
  "allowRate_calls [1000, 1001, 2000, 6000, 6000, 6001] 7 Map.empty =
     [True, True, True, False, False, True]"
  using allowRate_window [of Map.empty 7 1000 "[1001, 2000, 6000, 6000]" 6001]
  by (simp add: RATE_LIMIT_WINDOW_MS_def RATE_LIMIT_MAX_def)

text \<open>
  Claim C9. The empty map, with which the process starts, has every window's count
  between 1 and \<^verbatim>\<open>RATE_LIMIT_MAX\<close>, and a call of \<^verbatim>\<open>allowRate\<close> at any clock reading for any
  chat keeps it so.
\<close>

theorem allowRate_count_bounds:
  "rate_inv Map.empty \<and> (rate_inv m \<longrightarrow> rate_inv (snd (allowRate t c m)))"
  by (auto simp add: rate_inv_def allowRate_def RATE_LIMIT_MAX_def split: option.splits)

theorem allowRate_count_bounds_witness:
  "rate_inv [7 \<mapsto> \<lparr>count = 3, resetAt = 10\<rparr>] \<and>
   rate_inv (snd (allowRate 5 7 [7 \<mapsto> \<lparr>count = 3, resetAt = 10\<rparr>])) \<and>
   rate_inv (snd (allowRate 11 7 [7 \<mapsto> \<lparr>count = 3, resetAt = 10\<rparr>]))"
proof -
  have h: "rate_inv [7 \<mapsto> \<lparr>count = 3, resetAt = 10\<rparr>]"
    by (simp add: rate_inv_def RATE_LIMIT_MAX_def)
  show ?thesis
    using h allowRate_count_bounds [of "[7 \<mapsto> \<lparr>count = 3, resetAt = 10\<rparr>]" 5 7]
      allowRate_count_bounds [of "[7 \<mapsto> \<lparr>count = 3, resetAt = 10\<rparr>]" 11 7]
    by simp
qed

section \<open>Tokens and the first token\<close>

lemma split_ws_not_Nil: "split_ws s \<noteq> []"
  by (induction s rule: split_ws.induct) (auto split: list.splits)

lemma hd_split_ws: "hd (split_ws s) = takeWhile (\<lambda>c. \<not> is_space c) s"
  by (induction s rule: split_ws.induct) (auto split: list.splits simp add: split_ws_not_Nil)

lemma takeWhile_not_rev_dropWhile:
  "takeWhile (\<lambda>c. \<not> P c) (rev (dropWhile P (rev s))) = takeWhile (\<lambda>c. \<not> P c) s"
proof (induction s)
  case Nil
  then show ?case by simp
next
  case (Cons a s)
  show ?case
  proof (cases "P a")
    case True
    then show ?thesis by (simp add: dropWhile_append)
  next
    case False
    then have "rev (dropWhile P (rev (a # s))) = a # rev (dropWhile P (rev s))"
      by (simp add: dropWhile_append)
    then show ?thesis using False Cons.IH by simp
  qed
qed

lemma hd_parts: "hd (split_ws (trim text)) = first_token text"
  by (simp add: hd_split_ws trim_def first_token_def takeWhile_not_rev_dropWhile)

section \<open>Effects of the requests\<close>

lemma tg_world: "snd (tg e b w) = w\<lparr>sent := sent w @ [b]\<rparr>"
  by (simp add: tg_def Let_def split: net.splits)

lemma tg_records: "records (snd (tg e b w)) = records w"
  by (simp add: tg_world)

lemma handleCommand_admitted:
  assumes "fst (allowRate (now e) chatId (rateMap w))"
  shows "handleCommand cfg e chatId userId text msg w =
     (let w0 = w\<lparr>rateMap := snd (allowRate (now e) chatId (rateMap w))\<rparr>;
          cmd = toLowerCase (first_token text)
      in if cmd = ''/start'' \<or> cmd = ''start''
         then tg e (markdown chatId start_reply) w0
         else if cmd = ''/profile'' \<or> cmd = ''/me''
         then tg e (markdown chatId (profileMsg userId msg)) w0
         else if cmd = ''/setpayment'' \<or> cmd = ''setpayment''
         then cmd_setpayment cfg e chatId userId (split_ws (trim text)) w0
         else if cmd = ''/getpayments'' \<or> cmd = ''/payments''
         then cmd_getpayments cfg e chatId w0
         else if startsWith_slash text
         then tg e (plain chatId unknown_command_text) w0
         else tg e (plain chatId default_text) w0)"
proof (cases "allowRate (now e) chatId (rateMap w)")
  case (Pair allowed m)
  with assms have "allowed" by simp
  with Pair show ?thesis by (simp add: handleCommand_def hd_parts Let_def)
qed

lemma allowRate_fresh: "allowRate t c Map.empty = (True, [c \<mapsto> \<lparr>count = 1, resetAt = t + 5000\<rparr>])"
  by (simp add: allowRate_def RATE_LIMIT_WINDOW_MS_def)

text \<open>
  A message that the rate limiter refuses is answered with the notice to slow down, and
  nothing else happens: the map, the table and the count of requests stay as they are.
\<close>

lemma handleCommand_rate_limited:
  assumes "\<not> fst (allowRate (now e) chatId (rateMap w))"
  shows "handleCommand cfg e chatId userId text msg w = tg e (plain chatId slow_down_text) w"
proof -
  have "allowRate (now e) chatId (rateMap w) = (False, rateMap w)"
    using assms by (auto simp add: allowRate_def split: option.splits if_splits)
  then show ?thesis by (simp add: handleCommand_def)
qed

section \<open>The store\<close>

lemma fold_max_start: "(b :: nat) \<le> fold max zs b"
proof (induction zs arbitrary: b)
  case Nil
  then show ?case by simp
next
  case (Cons a zs)
  have "b \<le> max a b" by simp
  also have "\<dots> \<le> fold max zs (max a b)" by (rule Cons.IH)
  finally show ?case by simp
qed

lemma fold_max_ge: "x \<in> set xs \<Longrightarrow> x \<le> fold max xs (a :: nat)"
proof (induction xs arbitrary: a)
  case Nil
  then show ?case by simp
next
  case (Cons y ys)
  show ?case
  proof (cases "x = y")
    case True
    have "x \<le> max y a" using True by simp
    also have "\<dots> \<le> fold max ys (max y a)" by (rule fold_max_start)
    finally show ?thesis by simp
  next
    case False
    then show ?thesis using Cons by simp
  qed
qed

lemma fresh_id_new: "fresh_id rs \<notin> rec_id ` set rs"
proof
  assume "fresh_id rs \<in> rec_id ` set rs"
  then have "fresh_id rs \<in> set (map rec_id rs)" by simp
  then have "fresh_id rs \<le> fold max (map rec_id rs) 0" by (rule fold_max_ge)
  then show False by (simp add: fresh_id_def)
qed

lemma filter_patched:
  assumes "distinct (map rec_id rs)" and "r0 \<in> set rs" and "Provider r0 = Some p"
  shows "filter (\<lambda>r. Provider r = Some q) (map (patched (rec_id r0) p d) rs) =
         map (patched (rec_id r0) p d) (filter (\<lambda>r. Provider r = Some q) rs)"
proof -
  have same: "rec_id r = rec_id r0 \<Longrightarrow> r = r0" if "r \<in> set rs" for r
    using assms(1,2) that by (meson distinct_map inj_onD)
  have "(Provider (patched (rec_id r0) p d r) = Some q) = (Provider r = Some q)"
    if "r \<in> set rs" for r
    using same [OF that] assms(3) by (auto simp add: patched_def)
  then show ?thesis
    by (simp add: filter_map comp_def cong: filter_cong)
qed

lemma upsert_records:
  assumes "configured cfg"
    and "airtable e (requests w) = Up" and "airtable e (Suc (requests w)) = Up"
  shows "records (snd (airtableCreateOrUpdate cfg e p d w)) = upserted p d (records w)"
    and "requests (snd (airtableCreateOrUpdate cfg e p d w)) = requests w + 2"
proof -
  show "records (snd (airtableCreateOrUpdate cfg e p d w)) = upserted p d (records w)"
  proof (cases "filter (\<lambda>r. Provider r = Some p) (records w)")
    case Nil
    then show ?thesis using assms
      by (simp add: airtableCreateOrUpdate_def configured_def airtable_list_def
          airtable_create_def or_nil_def Let_def upserted_def)
  next
    case (Cons r0 rest)
    then show ?thesis using assms
      by (simp add: airtableCreateOrUpdate_def configured_def airtable_list_def
          airtable_patch_def or_nil_def Let_def upserted_def)
  qed
  show "requests (snd (airtableCreateOrUpdate cfg e p d w)) = requests w + 2"
    using assms
    by (simp add: airtableCreateOrUpdate_def configured_def airtable_list_def
        airtable_patch_def airtable_create_def or_nil_def Let_def split: list.splits)
qed

lemma upsert_store:
  fixes p d rs
  defines "rs' \<equiv> upserted p d rs"
  assumes "store_ok rs"
  shows "(\<exists>r. filter (\<lambda>r. Provider r = Some p) rs' = [r] \<and> Details r = Some d) \<and>
         (\<forall>q. q \<noteq> p \<longrightarrow>
            filter (\<lambda>r. Provider r = Some q) rs' = filter (\<lambda>r. Provider r = Some q) rs) \<and>
         store_ok rs' \<and>
         length rs' = (if filter (\<lambda>r. Provider r = Some p) rs = [] then Suc (length rs)
                       else length rs)"
proof (cases "filter (\<lambda>r. Provider r = Some p) rs")
  case Nil
  then have rs': "rs' = rs @ [\<lparr>rec_id = fresh_id rs, Provider = Some p, Details = Some d\<rparr>]"
    by (simp add: rs'_def upserted_def)
  have "length (filter (\<lambda>r. Provider r = Some q) rs') \<le> 1" for q
    using assms(2) Nil by (cases "q = p") (auto simp add: rs' store_ok_def)
  moreover have "distinct (map rec_id rs')"
    using assms(2) fresh_id_new [of rs] by (simp add: rs' store_ok_def)
  ultimately show ?thesis using Nil by (simp add: rs' store_ok_def)
next
  case (Cons r0 rest)
  then have rs': "rs' = map (patched (rec_id r0) p d) rs"
    by (simp add: rs'_def upserted_def)
  have "r0 \<in> set (filter (\<lambda>r. Provider r = Some p) rs)"
    using Cons by simp
  then have r0: "r0 \<in> set rs" "Provider r0 = Some p"
    by simp_all
  have "length (filter (\<lambda>r. Provider r = Some p) rs) \<le> 1"
    using assms(2) by (simp add: store_ok_def)
  then have rest: "rest = []" using Cons by simp
  have d: "distinct (map rec_id rs)" using assms(2) by (simp add: store_ok_def)
  have f: "filter (\<lambda>r. Provider r = Some q) rs' =
           map (patched (rec_id r0) p d) (filter (\<lambda>r. Provider r = Some q) rs)" for q
    unfolding rs' using d r0 by (rule filter_patched)
  have ids: "map rec_id rs' = map rec_id rs"
    by (simp add: rs' patched_def comp_def)
  have other: "filter (\<lambda>r. Provider r = Some q) rs' = filter (\<lambda>r. Provider r = Some q) rs"
    if "q \<noteq> p" for q
  proof -
    have same: "patched (rec_id r0) p d r = r"
      if "r \<in> set (filter (\<lambda>r. Provider r = Some q) rs)" for r
    proof -
      from that have "r \<in> set rs" and "Provider r = Some q" by simp_all
      with r0 \<open>q \<noteq> p\<close> have "r \<noteq> r0" by auto
      with d \<open>r \<in> set rs\<close> r0(1) have "rec_id r \<noteq> rec_id r0"
        by (meson distinct_map inj_onD)
      then show ?thesis by (simp add: patched_def)
    qed
    show ?thesis unfolding f by (rule map_idI) (rule same)
  qed
  have "store_ok rs'"
    using assms(2) by (simp add: store_ok_def ids f)
  moreover have "filter (\<lambda>r. Provider r = Some p) rs' = [patched (rec_id r0) p d r0]"
    by (simp add: f Cons rest)
  ultimately show ?thesis using Cons other by (simp add: rs' patched_def)
qed

text \<open>
  A run of upserts, one after the other, on a table that satisfies \<^verbatim>\<open>store_ok\<close>: the table
  satisfies it afterwards, and each provider that was written has exactly one record,
  with the details written for it last.
\<close>

lemma upserted_sequence:
  assumes "store_ok rs"
  shows "store_ok (foldl (\<lambda>rs (p, d). upserted p d rs) rs pds) \<and>
         (\<forall>p d. map_of (rev pds) p = Some d \<longrightarrow>
            (\<exists>r. filter (\<lambda>r. Provider r = Some p)
                    (foldl (\<lambda>rs (p, d). upserted p d rs) rs pds) = [r] \<and>
                  Details r = Some d))"
proof (induction pds rule: rev_induct)
  case Nil
  then show ?case using assms by simp
next
  case (snoc x pds)
  obtain q d' where x: "x = (q, d')" by (cases x)
  let ?rs = "foldl (\<lambda>rs (p, d). upserted p d rs) rs pds"
  from snoc have ok: "store_ok ?rs" by simp
  note step = upsert_store [OF ok, of q d']
  have "\<exists>r. filter (\<lambda>r. Provider r = Some p) (upserted q d' ?rs) = [r] \<and> Details r = Some d"
    if "map_of (rev (pds @ [x])) p = Some d" for p d
  proof (cases "p = q")
    case True
    with that x have "d = d'" by simp
    with True step show ?thesis by simp
  next
    case False
    with that x have "map_of (rev pds) p = Some d" by simp
    with snoc have "\<exists>r. filter (\<lambda>r. Provider r = Some p) ?rs = [r] \<and> Details r = Some d"
      by blast
    with False step show ?thesis by simp
  qed
  then show ?case using step by (simp add: x)
qed

lemma tg_requests: "requests (snd (tg e b w)) = requests w"
  by (simp add: tg_world)

lemma cmd_setpayment_store:
  assumes "isAdmin cfg userId" and "configured cfg"
    and "airtable e (requests w) = Up" and "airtable e (Suc (requests w)) = Up"
    and "p \<in> {''jazzcash'', ''easypaisa''}"
  shows "records (snd (cmd_setpayment cfg e chatId userId (c # p # d # ds) w)) =
           upserted p (join '' '' (d # ds)) (records w)"
    and "requests (snd (cmd_setpayment cfg e chatId userId (c # p # d # ds) w)) =
           requests w + 2"
proof -
  let ?d = "join '' '' (d # ds)"
  obtain r w1 where up: "airtableCreateOrUpdate cfg e p ?d w = (r, w1)"
    by (cases "airtableCreateOrUpdate cfg e p ?d w")
  have w1: "records w1 = upserted p ?d (records w)" "requests w1 = requests w + 2"
    using upsert_records [OF assms(2-4), of p ?d] up by simp_all
  have low: "toLowerCase p = p"
    using assms(5) by (auto simp add: toLowerCase_def lower_char_def)
  have allowed: "p \<in> set ALLOWED_PROVIDERS"
    using assms(5) by (auto simp add: ALLOWED_PROVIDERS_def)
  obtain r2 w2 where t: "tg e (markdown chatId (updated_text p)) w1 = (r2, w2)"
    by (cases "tg e (markdown chatId (updated_text p)) w1")
  have w2: "records w2 = records w1" "requests w2 = requests w1"
    using tg_records [of e "markdown chatId (updated_text p)" w1]
      tg_requests [of e "markdown chatId (updated_text p)" w1] t by simp_all
  show "records (snd (cmd_setpayment cfg e chatId userId (c # p # d # ds) w)) =
           upserted p (join '' '' (d # ds)) (records w)"
    using assms(1,2) low allowed up t w1 w2
    by (cases r; cases r2)
       (simp_all add: cmd_setpayment_def configured_def Let_def tg_records)
  show "requests (snd (cmd_setpayment cfg e chatId userId (c # p # d # ds) w)) =
           requests w + 2"
    using assms(1,2) low allowed up t w1 w2
    by (cases r; cases r2)
       (simp_all add: cmd_setpayment_def configured_def Let_def tg_requests)
qed

text \<open>
  Claim C1. An admitted sender (\<^verbatim>\<open>isAdmin\<close>: the admin list is empty, or holds the
  sender's id) sends \<^verbatim>\<open>/setpayment p d ...\<close> with \<open>p\<close> one of jazzcash and easypaisa, the
  rate limiter lets the message pass, the store is configured and answers the find
  request and the request after it with success, and the table has at most one record
  for each provider (\<^verbatim>\<open>store_ok\<close>, which holds of the empty table). Then the call makes those
  two requests, and the table afterwards is the one before with the record found for
  \<open>p\<close> patched, or with a new record when none was found: it has exactly one record whose
  Provider is \<open>p\<close>, its Details are the tokens after the provider joined by single spaces,
  the records of the other providers are as before, the table again satisfies
  \<^verbatim>\<open>store_ok\<close>, and it has grown by one record when there was none for \<open>p\<close> (create) and
  not at all when there was one (patch). Since \<^verbatim>\<open>store_ok\<close> is kept, this holds after each
  of a sequence of such calls, one after the other.
\<close>

theorem setpayment_upsert:
  fixes cfg e chatId userId input msg w
  defines "w' \<equiv> snd (handleCommand cfg e chatId userId input msg w)"
  assumes "isAdmin cfg userId" and "configured cfg"
    and "fst (allowRate (now e) chatId (rateMap w))"
    and "airtable e (requests w) = Up" and "airtable e (Suc (requests w)) = Up"
    and "split_ws (trim input) = c # p # d # ds"
    and "toLowerCase c \<in> {''/setpayment'', ''setpayment''}"
    and "p \<in> {''jazzcash'', ''easypaisa''}"
    and "store_ok (records w)"
  shows "requests w' = requests w + 2 \<and>
         records w' = upserted p (join '' '' (d # ds)) (records w) \<and>
         (\<exists>r. filter (\<lambda>r. Provider r = Some p) (records w') = [r] \<and>
              Details r = Some (join '' '' (d # ds))) \<and>
         (\<forall>q. q \<noteq> p \<longrightarrow>
            filter (\<lambda>r. Provider r = Some q) (records w') =
            filter (\<lambda>r. Provider r = Some q) (records w)) \<and>
         store_ok (records w') \<and>
         length (records w') =
           (if filter (\<lambda>r. Provider r = Some p) (records w) = [] then Suc (length (records w))
            else length (records w))"
proof -
  let ?w0 = "w\<lparr>rateMap := snd (allowRate (now e) chatId (rateMap w))\<rparr>"
  have "first_token input = c"
    using hd_parts [of input] assms(7) by simp
  then have "handleCommand cfg e chatId userId input msg w =
               cmd_setpayment cfg e chatId userId (c # p # d # ds) ?w0"
    using assms(4,7,8) by (auto simp add: handleCommand_admitted Let_def)
  then have "records w' = upserted p (join '' '' (d # ds)) (records w)"
    and "requests w' = requests w + 2"
    using cmd_setpayment_store [of cfg userId e ?w0 p chatId c d ds] assms(2,3,5,6,9)
    by (simp_all add: w'_def)
  then show ?thesis
    using upsert_store [OF assms(10), of p "join '' '' (d # ds)"] by simp
qed

lemma store_config_admin_7: "isAdmin store_config (Some 7)"
  by (simp add: isAdmin_def ADMIN_IDS_def store_config_def or_else_def trim_def is_space_def
      String_id_def String_int_def digits.simps digit_char_def)

theorem setpayment_upsert_witness:
  "(\<exists>r. filter (\<lambda>r. Provider r = Some ''jazzcash'')
           (records (snd (handleCommand store_config fine_env 5 (Some 7)
              ''/setpayment jazzcash 0300-1234567'' empty_message fresh_world))) = [r] \<and>
        Details r = Some ''0300-1234567'') \<and>
   store_ok (records (snd (handleCommand store_config fine_env 5 (Some 7)
              ''/setpayment jazzcash 0300-1234567'' empty_message fresh_world))) \<and>
   length (records (snd (handleCommand store_config fine_env 5 (Some 7)
              ''/setpayment jazzcash 0300-1234567'' empty_message fresh_world))) = 1 \<and>
   requests (snd (handleCommand store_config fine_env 5 (Some 7)
              ''/setpayment jazzcash 0300-1234567'' empty_message fresh_world)) = 2"
proof -
  have cfg: "configured store_config"
    by (simp add: configured_def store_config_def truthy_def)
  have rate: "fst (allowRate (now fine_env) 5 (rateMap fresh_world))"
    by (simp add: fresh_world_def allowRate_fresh)
  have up: "airtable fine_env (requests fresh_world) = Up"
    "airtable fine_env (Suc (requests fresh_world)) = Up"
    by (simp_all add: fine_env_def)
  have parts: "split_ws (trim ''/setpayment jazzcash 0300-1234567'') =
                 ''/setpayment'' # ''jazzcash'' # ''0300-1234567'' # []"
    by (simp add: trim_def is_space_def)
  have cmd: "toLowerCase ''/setpayment'' \<in> {''/setpayment'', ''setpayment''}"
    by (simp add: toLowerCase_def lower_char_def)
  have p: "''jazzcash'' \<in> {''jazzcash'', ''easypaisa''}"
    by simp
  have ok: "store_ok (records fresh_world)"
    by (simp add: store_ok_def fresh_world_def)
  have e: "filter (\<lambda>r. Provider r = Some ''jazzcash'') (records fresh_world) = []"
    "length (records fresh_world) = 0" "requests fresh_world = 0"
    by (simp_all add: fresh_world_def)
  show ?thesis
    using setpayment_upsert [OF store_config_admin_7 cfg rate up parts cmd p ok, of empty_message]
    by (auto simp add: e)
qed

lemma setpayment_twice_example:
  "records (snd (handleCommand store_config fine_env 5 (Some 7) ''setpayment JazzCash 0311  22''
     empty_message
     (snd (handleCommand store_config fine_env 5 (Some 7) ''/setpayment jazzcash 0300-1234567''
        empty_message fresh_world)))) =
   [\<lparr>rec_id = 1, Provider = Some ''jazzcash'', Details = Some ''0311 22''\<rparr>]"
  by (simp add: handleCommand_def cmd_setpayment_def airtableCreateOrUpdate_def
      airtable_list_def airtable_patch_def airtable_create_def patched_def fresh_id_def
      or_nil_def tg_def allowRate_def RATE_LIMIT_WINDOW_MS_def RATE_LIMIT_MAX_def
      store_config_def fine_env_def fresh_world_def isAdmin_def ADMIN_IDS_def or_else_def
      truthy_def trim_def is_space_def toLowerCase_def lower_char_def ALLOWED_PROVIDERS_def
      String_id_def String_int_def digits.simps digit_char_def Let_def)

section \<open>Listing the records\<close>

text \<open>
  Claim C7. \<^verbatim>\<open>airtableGetAll\<close> returns the empty list, and makes no request, when the key
  or the base is not configured; it returns the empty list when Airtable answers with a
  status other than success; when Airtable answers with success it returns the first 50
  records of the table; and whatever list it returns has at most 50 records. (When the
  request itself is rejected it returns nothing: the exception passes to the caller.)
\<close>

theorem airtableGetAll_result:
  "(\<not> configured cfg \<longrightarrow> airtableGetAll cfg e w = (Inr [], w)) \<and>
   (configured cfg \<and> airtable e (requests w) = HttpFail \<longrightarrow>
      fst (airtableGetAll cfg e w) = Inr []) \<and>
   (configured cfg \<and> airtable e (requests w) = Up \<longrightarrow>
      fst (airtableGetAll cfg e w) = Inr (take 50 (records w))) \<and>
   (\<forall>rs. fst (airtableGetAll cfg e w) = Inr rs \<longrightarrow> length rs \<le> 50)"
  by (cases "airtable e (requests w)")
     (auto simp add: airtableGetAll_def configured_def airtable_list_def Let_def or_nil_def)

theorem airtableGetAll_result_witness:
  "airtableGetAll open_config fine_env fresh_world = (Inr [], fresh_world) \<and>
   fst (airtableGetAll store_config (fine_env\<lparr>airtable := (\<lambda>k. HttpFail)\<rparr>)
          (fresh_world\<lparr>records := replicate 60 \<lparr>rec_id = 1, Provider = None, Details = None\<rparr>\<rparr>))
     = Inr [] \<and>
   fst (airtableGetAll store_config fine_env
          (fresh_world\<lparr>records := replicate 60 \<lparr>rec_id = 1, Provider = None, Details = None\<rparr>\<rparr>))
     = Inr (replicate 50 \<lparr>rec_id = 1, Provider = None, Details = None\<rparr>)"
proof -
  have c0: "\<not> configured open_config"
    by (simp add: configured_def open_config_def truthy_def)
  have c1: "configured store_config"
    by (simp add: configured_def store_config_def truthy_def)
  let ?w = "fresh_world\<lparr>records := replicate 60 \<lparr>rec_id = 1, Provider = None, Details = None\<rparr>\<rparr>"
  show ?thesis
    using c0 c1 airtableGetAll_result [of open_config fine_env fresh_world]
      airtableGetAll_result [of store_config "fine_env\<lparr>airtable := (\<lambda>k. HttpFail)\<rparr>" ?w]
      airtableGetAll_result [of store_config fine_env ?w]
    by (simp add: fine_env_def)
qed

section \<open>The handler\<close>

text \<open>
  Claim C8. For every configuration, every state of the outside world (whatever Telegram
  and Airtable answer to each request, also when requests are rejected), every event and
  whatever \<^verbatim>\<open>JSON.parse\<close> makes of its body, the handler returns, and what it returns is
  the status code 200 with the body \<^verbatim>\<open>ok\<close>: no exception leaves it.
\<close>

theorem handler_always_200:
  "fst (handler cfg e JSON_parse ev w) = Inr \<lparr>statusCode = 200, result_body = ''ok''\<rparr>"
proof -
  have p: "\<And>u. fst (process_update cfg e u w) = Inr ok_200
              \<or> (\<exists>err. fst (process_update cfg e u w) = Inl err)"
    by (simp add: process_update_def Let_def split: prod.splits sum.splits option.splits)
  have "fst (handler_try cfg e JSON_parse ev w) = Inr ok_200
          \<or> (\<exists>err. fst (handler_try cfg e JSON_parse ev w) = Inl err)"
    using p by (simp add: handler_try_def split: parsed.splits)
  then show ?thesis
    by (auto simp add: handler_def ok_200_def split: prod.splits sum.splits)
qed

theorem handler_always_200_witness:
  "fst (handler store_config offline_env
          (\<lambda>s. JsonUpdate \<lparr>message = Some (text_message 5 (sender 7 ''ann'') ''/getpayments''),
                           edited_message = None, callback_query = None\<rparr>)
          \<lparr>httpMethod = ''POST'', body = ''{}''\<rparr> fresh_world) =
     Inr \<lparr>statusCode = 200, result_body = ''ok''\<rparr> \<and>
   fst (handler_try store_config offline_env
          (\<lambda>s. JsonUpdate \<lparr>message = Some (text_message 5 (sender 7 ''ann'') ''/getpayments''),
                           edited_message = None, callback_query = None\<rparr>)
          \<lparr>httpMethod = ''POST'', body = ''{}''\<rparr> fresh_world) = Inl FetchError"
proof -
  let ?parse = "\<lambda>s :: string. JsonUpdate
      \<lparr>message = Some (text_message 5 (sender 7 ''ann'') ''/getpayments''),
       edited_message = None, callback_query = None\<rparr>"
  let ?ev = "\<lparr>httpMethod = ''POST'', body = ''{}''\<rparr>"
  have "fst (handler_try store_config offline_env ?parse ?ev fresh_world) = Inl FetchError"
    by (simp add: handler_try_def process_update_def chatId_of_def fromId_of_def
        message_of_def chat_id_in_def from_id_in_def first_truthy_def text_message_def
        sender_def or_else_def handleCommand_def allowRate_def fresh_world_def
        cmd_getpayments_def airtableGetAll_def airtable_list_def tg_def store_config_def
        offline_env_def truthy_def trim_def is_space_def toLowerCase_def lower_char_def
        Let_def)
  then show ?thesis
    using handler_always_200 [of store_config offline_env ?parse ?ev fresh_world] by simp
qed

text \<open>
  Claim C10. When the method of the request is not POST, or its body yields no chat id
  (it does not parse, it is \<^verbatim>\<open>null\<close>, or the update in it has no chat id other than 0),
  the handler answers 200 with the body \<^verbatim>\<open>ok\<close> and leaves the whole state as it was: the
  rate-limit map, the table, the count of requests to Airtable and the messages sent.
\<close>

theorem handler_ignores:
  assumes "httpMethod ev \<noteq> ''POST'' \<or> JSON_parse (body ev) = SyntaxError \<or>
           JSON_parse (body ev) = JsonNull \<or>
           (\<exists>u. JSON_parse (body ev) = JsonUpdate u \<and> chatId_of u = None)"
  shows "handler cfg e JSON_parse ev w = (Inr \<lparr>statusCode = 200, result_body = ''ok''\<rparr>, w)"
proof -
  have "chatId_of empty_update = None"
    by (simp add: chatId_of_def empty_update_def message_of_def empty_message_def
        chat_id_in_def first_truthy_def)
  then show ?thesis using assms
    by (auto simp add: handler_def handler_try_def process_update_def ok_200_def Let_def)
qed

theorem handler_ignores_witness:
  "handler store_config fine_env (\<lambda>s. JsonUpdate empty_update)
     \<lparr>httpMethod = ''GET'', body = ''{}''\<rparr> fresh_world =
     (Inr \<lparr>statusCode = 200, result_body = ''ok''\<rparr>, fresh_world) \<and>
   handler store_config fine_env
     (\<lambda>s. JsonUpdate \<lparr>message = None,
                      edited_message = Some \<lparr>message_text = Some ''/start'', message_chat = None,
                                              message_from = Some (sender 7 ''ann'')\<rparr>,
                      callback_query = None\<rparr>)
     \<lparr>httpMethod = ''POST'', body = ''{}''\<rparr> fresh_world =
     (Inr \<lparr>statusCode = 200, result_body = ''ok''\<rparr>, fresh_world)"
proof -
  let ?u = "\<lparr>message = None,
             edited_message = Some \<lparr>message_text = Some ''/start'', message_chat = None,
                                     message_from = Some (sender 7 ''ann'')\<rparr>,
             callback_query = None\<rparr>"
  have m: "httpMethod \<lparr>httpMethod = ''GET'', body = ''{}''\<rparr> \<noteq> ''POST''"
    by simp
  have c: "chatId_of ?u = None"
    by (simp add: chatId_of_def message_of_def chat_id_in_def first_truthy_def)
  show ?thesis
    using handler_ignores [of "\<lparr>httpMethod = ''GET'', body = ''{}''\<rparr>"
              "\<lambda>s. JsonUpdate empty_update" store_config fine_env fresh_world]
      handler_ignores [of "\<lparr>httpMethod = ''POST'', body = ''{}''\<rparr>"
              "\<lambda>s. JsonUpdate ?u" store_config fine_env fresh_world]
      m c
    by simp
qed

section \<open>The setpayment command\<close>

lemma setpayment_refusal:
  assumes "\<not> isAdmin cfg userId"
  shows "cmd_setpayment cfg e chatId userId parts w = tg e (plain chatId only_admin_text) w"
  using assms by (simp add: cmd_setpayment_def)

text \<open>
  Claim C3. With an empty admin list every sender is an admin; with a list that is not
  empty a sender is an admin exactly when the string form of the sender's id is in the
  list. When a sender who is not an admin sends a message whose first token, in lower
  case, is \<^verbatim>\<open>/setpayment\<close> or \<^verbatim>\<open>setpayment\<close>, no request goes to the store and the table
  is as before; and when the rate limiter, which comes before all routing, lets the
  message pass, the one message sent is the refusal
  \<^verbatim>\<open>Only admin(s) can use /setpayment.\<close>
\<close>

theorem setpayment_admin_only:
  "(ADMIN_IDS cfg = [] \<longrightarrow> isAdmin cfg userId) \<and>
   (ADMIN_IDS cfg \<noteq> [] \<longrightarrow> isAdmin cfg userId = (String_id userId \<in> set (ADMIN_IDS cfg))) \<and>
   (\<not> isAdmin cfg userId \<and>
    toLowerCase (first_token text) \<in> {''/setpayment'', ''setpayment''} \<longrightarrow>
      records (snd (handleCommand cfg e chatId userId text msg w)) = records w \<and>
      requests (snd (handleCommand cfg e chatId userId text msg w)) = requests w \<and>
      (fst (allowRate (now e) chatId (rateMap w)) \<longrightarrow>
         sent (snd (handleCommand cfg e chatId userId text msg w)) =
           sent w @ [\<lparr>chat_id = chatId, msg_text = ''Only admin(s) can use /setpayment.'',
                      parse_mode = None\<rparr>]))"
proof -
  have admitted: "sent (snd (handleCommand cfg e chatId userId text msg w)) =
          sent w @ [plain chatId only_admin_text] \<and>
        records (snd (handleCommand cfg e chatId userId text msg w)) = records w \<and>
        requests (snd (handleCommand cfg e chatId userId text msg w)) = requests w"
    if "\<not> isAdmin cfg userId" and "fst (allowRate (now e) chatId (rateMap w))"
      and "toLowerCase (first_token text) \<in> {''/setpayment'', ''setpayment''}"
    using that by (auto simp add: handleCommand_admitted setpayment_refusal tg_world Let_def)
  have refused: "records (snd (handleCommand cfg e chatId userId text msg w)) = records w \<and>
        requests (snd (handleCommand cfg e chatId userId text msg w)) = requests w"
    if "\<not> fst (allowRate (now e) chatId (rateMap w))"
    using that by (simp add: handleCommand_rate_limited tg_world)
  show ?thesis
    using admitted refused
    by (cases "fst (allowRate (now e) chatId (rateMap w))")
       (simp_all add: isAdmin_def plain_def only_admin_text_def)
qed

lemma store_config_ids: "ADMIN_IDS store_config = [''7'', ''8'']"
  by (simp add: ADMIN_IDS_def store_config_def or_else_def trim_def is_space_def)

lemma open_config_ids: "ADMIN_IDS open_config = []"
  by (simp add: ADMIN_IDS_def open_config_def or_else_def trim_def)

theorem setpayment_admin_only_witness:
  "isAdmin open_config (Some 9) \<and>
   isAdmin store_config (Some 8) \<and>
   \<not> isAdmin store_config (Some 9) \<and>
   sent (snd (handleCommand store_config fine_env 5 (Some 9) ''/setpayment jazzcash x''
                empty_message fresh_world)) =
     [\<lparr>chat_id = 5, msg_text = ''Only admin(s) can use /setpayment.'', parse_mode = None\<rparr>] \<and>
   records (snd (handleCommand store_config fine_env 5 (Some 9) ''/setpayment jazzcash x''
                empty_message fresh_world)) = [] \<and>
   requests (snd (handleCommand store_config fine_env 5 (Some 9) ''/setpayment jazzcash x''
                empty_message fresh_world)) = 0"
proof -
  have s8: "String_id (Some 8) = ''8''" and s9: "String_id (Some 9) = ''9''"
    by (simp_all add: String_id_def String_int_def digits.simps digit_char_def)
  have rate: "fst (allowRate (now fine_env) 5 (rateMap fresh_world))"
    by (simp add: fresh_world_def allowRate_fresh)
  have tok: "toLowerCase (first_token ''/setpayment jazzcash x'') = ''/setpayment''"
    by (simp add: first_token_def is_space_def toLowerCase_def lower_char_def)
  show ?thesis
    using setpayment_admin_only [of open_config "Some 9" "''/setpayment jazzcash x''"
              fine_env 5 empty_message fresh_world]
      setpayment_admin_only [of store_config "Some 8" "''/setpayment jazzcash x''"
              fine_env 5 empty_message fresh_world]
      setpayment_admin_only [of store_config "Some 9" "''/setpayment jazzcash x''"
              fine_env 5 empty_message fresh_world]
      rate tok
    by (simp add: store_config_ids open_config_ids s8 s9 fresh_world_def)
qed

text \<open>
  Claim C6. An admin sends a message whose first token, in lower case, is
  \<^verbatim>\<open>/setpayment\<close> or \<^verbatim>\<open>setpayment\<close>. With fewer than three tokens, and with three or more
  and a second token that, in lower case, is neither jazzcash nor easypaisa, no request
  goes to the store and the table is as before; and when the rate limiter, which comes
  before all routing, lets the message pass, the one message sent is the usage text in
  the first case and \<^verbatim>\<open>Invalid provider. Allowed: jazzcash, easypaisa\<close> in the second.
\<close>

theorem setpayment_validation:
  assumes "isAdmin cfg userId"
    and "toLowerCase (first_token text) \<in> {''/setpayment'', ''setpayment''}"
  shows "(length (split_ws (trim text)) < 3 \<longrightarrow>
           records (snd (handleCommand cfg e chatId userId text msg w)) = records w \<and>
           requests (snd (handleCommand cfg e chatId userId text msg w)) = requests w \<and>
           (fst (allowRate (now e) chatId (rateMap w)) \<longrightarrow>
              sent (snd (handleCommand cfg e chatId userId text msg w)) =
                sent w @ [\<lparr>chat_id = chatId,
                           msg_text = ''Usage: /setpayment <provider> <details>'' @ [CHR 0x0A] @
                                      ''Example: /setpayment easypaisa 03xx-xxxxxxx'',
                           parse_mode = None\<rparr>])) \<and>
         (3 \<le> length (split_ws (trim text)) \<and>
          toLowerCase (split_ws (trim text) ! 1) \<notin> {''jazzcash'', ''easypaisa''} \<longrightarrow>
           records (snd (handleCommand cfg e chatId userId text msg w)) = records w \<and>
           requests (snd (handleCommand cfg e chatId userId text msg w)) = requests w \<and>
           (fst (allowRate (now e) chatId (rateMap w)) \<longrightarrow>
              sent (snd (handleCommand cfg e chatId userId text msg w)) =
                sent w @ [\<lparr>chat_id = chatId,
                           msg_text = ''Invalid provider. Allowed: jazzcash, easypaisa'',
                           parse_mode = None\<rparr>]))"
proof (cases "fst (allowRate (now e) chatId (rateMap w))")
  case False
  then show ?thesis
    by (simp add: handleCommand_rate_limited tg_world)
next
  case True
  let ?w0 = "w\<lparr>rateMap := snd (allowRate (now e) chatId (rateMap w))\<rparr>"
  have h: "handleCommand cfg e chatId userId text msg w =
             cmd_setpayment cfg e chatId userId (split_ws (trim text)) ?w0"
    using True assms(2) by (auto simp add: handleCommand_admitted Let_def)
  have short: "cmd_setpayment cfg e chatId userId (split_ws (trim text)) ?w0 =
                 tg e (plain chatId usage_text) ?w0"
    if "length (split_ws (trim text)) < 3"
    using that assms(1) by (simp add: cmd_setpayment_def)
  have bad: "cmd_setpayment cfg e chatId userId (split_ws (trim text)) ?w0 =
                 tg e (plain chatId invalid_provider_text) ?w0"
    if "3 \<le> length (split_ws (trim text))"
      and "toLowerCase (split_ws (trim text) ! 1) \<notin> {''jazzcash'', ''easypaisa''}"
    using that assms(1) by (simp add: cmd_setpayment_def ALLOWED_PROVIDERS_def Let_def)
  have u: "usage_text = ''Usage: /setpayment <provider> <details>'' @ [CHR 0x0A] @
                                   ''Example: /setpayment easypaisa 03xx-xxxxxxx''"
    by (simp add: usage_text_def nl_def)
  have i: "invalid_provider_text = ''Invalid provider. Allowed: jazzcash, easypaisa''"
    by (simp add: invalid_provider_text_def ALLOWED_PROVIDERS_def)
  show ?thesis
    using short bad by (auto simp add: h tg_world plain_def u i)
qed

theorem setpayment_validation_witness:
  "sent (snd (handleCommand store_config fine_env 5 (Some 7) ''/setpayment easypaisa''
                empty_message fresh_world)) =
     [\<lparr>chat_id = 5,
       msg_text = ''Usage: /setpayment <provider> <details>'' @ [CHR 0x0A] @
                  ''Example: /setpayment easypaisa 03xx-xxxxxxx'',
       parse_mode = None\<rparr>] \<and>
   requests (snd (handleCommand store_config fine_env 5 (Some 7) ''/setpayment easypaisa''
                empty_message fresh_world)) = 0 \<and>
   sent (snd (handleCommand store_config fine_env 5 (Some 7) ''/setpayment bitcoin 123''
                empty_message fresh_world)) =
     [\<lparr>chat_id = 5, msg_text = ''Invalid provider. Allowed: jazzcash, easypaisa'',
       parse_mode = None\<rparr>] \<and>
   requests (snd (handleCommand store_config fine_env 5 (Some 7) ''/setpayment bitcoin 123''
                empty_message fresh_world)) = 0"
proof -
  have rate: "fst (allowRate (now fine_env) 5 (rateMap fresh_world))"
    by (simp add: fresh_world_def allowRate_fresh)
  have tok2: "toLowerCase (first_token ''/setpayment easypaisa'') \<in> {''/setpayment'', ''setpayment''}"
    by (simp add: first_token_def is_space_def toLowerCase_def lower_char_def)
  have tok3: "toLowerCase (first_token ''/setpayment bitcoin 123'') \<in> {''/setpayment'', ''setpayment''}"
    by (simp add: first_token_def is_space_def toLowerCase_def lower_char_def)
  have p2: "split_ws (trim ''/setpayment easypaisa'') = [''/setpayment'', ''easypaisa'']"
    by (simp add: trim_def is_space_def)
  have p3: "split_ws (trim ''/setpayment bitcoin 123'') = [''/setpayment'', ''bitcoin'', ''123'']"
    by (simp add: trim_def is_space_def)
  have low: "toLowerCase ''bitcoin'' = ''bitcoin''"
    by (simp add: toLowerCase_def lower_char_def)
  show ?thesis
    using setpayment_validation [OF store_config_admin_7 tok2, of fine_env 5 empty_message
              fresh_world]
      setpayment_validation [OF store_config_admin_7 tok3, of fine_env 5 empty_message
              fresh_world]
      rate
    by (simp add: p2 p3 low fresh_world_def)
qed

section \<open>Dispatch on the first token\<close>

text \<open>
  Claim C4, as amended. For a message that the rate limiter lets pass, the router decides
  by the first token of the text (what stands between the white space at its start and
  the next white space), put in lower case: \<^verbatim>\<open>/start\<close> and \<^verbatim>\<open>start\<close> give the help reply,
  \<^verbatim>\<open>/profile\<close> and \<^verbatim>\<open>/me\<close> the profile reply, \<^verbatim>\<open>/setpayment\<close> and \<^verbatim>\<open>setpayment\<close> the
  setpayment branch on the tokens of the trimmed text, \<^verbatim>\<open>/getpayments\<close> and \<^verbatim>\<open>/payments\<close>
  the listing. So start and setpayment are taken with and without the leading \<^verbatim>\<open>/\<close>,
  with the same routing either way, in whatever case the token is written.
\<close>

theorem handleCommand_dispatch:
  assumes "fst (allowRate (now e) chatId (rateMap w))"
  shows "(toLowerCase (first_token text) \<in> {''/start'', ''start''} \<longrightarrow>
            handleCommand cfg e chatId userId text msg w =
              tg e (markdown chatId start_reply)
                (w\<lparr>rateMap := snd (allowRate (now e) chatId (rateMap w))\<rparr>)) \<and>
         (toLowerCase (first_token text) \<in> {''/profile'', ''/me''} \<longrightarrow>
            handleCommand cfg e chatId userId text msg w =
              tg e (markdown chatId (profileMsg userId msg))
                (w\<lparr>rateMap := snd (allowRate (now e) chatId (rateMap w))\<rparr>)) \<and>
         (toLowerCase (first_token text) \<in> {''/setpayment'', ''setpayment''} \<longrightarrow>
            handleCommand cfg e chatId userId text msg w =
              cmd_setpayment cfg e chatId userId (split_ws (trim text))
                (w\<lparr>rateMap := snd (allowRate (now e) chatId (rateMap w))\<rparr>)) \<and>
         (toLowerCase (first_token text) \<in> {''/getpayments'', ''/payments''} \<longrightarrow>
            handleCommand cfg e chatId userId text msg w =
              cmd_getpayments cfg e chatId
                (w\<lparr>rateMap := snd (allowRate (now e) chatId (rateMap w))\<rparr>))"
  using assms by (auto simp add: handleCommand_admitted Let_def)

theorem handleCommand_dispatch_witness:
  "handleCommand open_config fine_env 5 (Some 7) ''  /START now'' empty_message fresh_world =
     tg fine_env (markdown 5 start_reply)
       (fresh_world\<lparr>rateMap := [5 \<mapsto> \<lparr>count = 1, resetAt = 6000\<rparr>]\<rparr>) \<and>
   handleCommand open_config fine_env 5 (Some 7) ''Start'' empty_message fresh_world =
     tg fine_env (markdown 5 start_reply)
       (fresh_world\<lparr>rateMap := [5 \<mapsto> \<lparr>count = 1, resetAt = 6000\<rparr>]\<rparr>) \<and>
   handleCommand open_config fine_env 5 (Some 7) ''/Me'' empty_message fresh_world =
     tg fine_env (markdown 5 (profileMsg (Some 7) empty_message))
       (fresh_world\<lparr>rateMap := [5 \<mapsto> \<lparr>count = 1, resetAt = 6000\<rparr>]\<rparr>) \<and>
   handleCommand open_config fine_env 5 (Some 7) ''SetPayment x'' empty_message fresh_world =
     cmd_setpayment open_config fine_env 5 (Some 7) [''SetPayment'', ''x'']
       (fresh_world\<lparr>rateMap := [5 \<mapsto> \<lparr>count = 1, resetAt = 6000\<rparr>]\<rparr>) \<and>
   handleCommand open_config fine_env 5 (Some 7) ''/PAYMENTS'' empty_message fresh_world =
     cmd_getpayments open_config fine_env 5
       (fresh_world\<lparr>rateMap := [5 \<mapsto> \<lparr>count = 1, resetAt = 6000\<rparr>]\<rparr>)"
proof -
  have rate: "fst (allowRate (now fine_env) 5 (rateMap fresh_world))"
    by (simp add: fresh_world_def allowRate_fresh)
  have m: "snd (allowRate (now fine_env) 5 (rateMap fresh_world)) =
             [5 \<mapsto> \<lparr>count = 1, resetAt = 6000\<rparr>]"
    by (simp add: fresh_world_def fine_env_def allowRate_fresh)
  have t: "toLowerCase (first_token ''  /START now'') = ''/start''"
    "toLowerCase (first_token ''Start'') = ''start''"
    "toLowerCase (first_token ''/Me'') = ''/me''"
    "toLowerCase (first_token ''SetPayment x'') = ''setpayment''"
    "toLowerCase (first_token ''/PAYMENTS'') = ''/payments''"
    by (simp_all add: first_token_def is_space_def toLowerCase_def lower_char_def)
  have p: "split_ws (trim ''SetPayment x'') = [''SetPayment'', ''x'']"
    by (simp add: trim_def is_space_def)
  show ?thesis
    using handleCommand_dispatch [OF rate, of "''  /START now''" open_config "Some 7" empty_message]
      handleCommand_dispatch [OF rate, of "''Start''" open_config "Some 7" empty_message]
      handleCommand_dispatch [OF rate, of "''/Me''" open_config "Some 7" empty_message]
      handleCommand_dispatch [OF rate, of "''SetPayment x''" open_config "Some 7" empty_message]
      handleCommand_dispatch [OF rate, of "''/PAYMENTS''" open_config "Some 7" empty_message]
    by (simp add: t p m)
qed

lemma run_fresh:
  "handleCommand cfg fine_env 5 u input msg fresh_world =
     (let w0 = fresh_world\<lparr>rateMap := [5 \<mapsto> \<lparr>count = 1, resetAt = 6000\<rparr>]\<rparr>;
          cmd = toLowerCase (first_token input)
      in if cmd = ''/start'' \<or> cmd = ''start''
         then tg fine_env (markdown 5 start_reply) w0
         else if cmd = ''/profile'' \<or> cmd = ''/me''
         then tg fine_env (markdown 5 (profileMsg u msg)) w0
         else if cmd = ''/setpayment'' \<or> cmd = ''setpayment''
         then cmd_setpayment cfg fine_env 5 u (split_ws (trim input)) w0
         else if cmd = ''/getpayments'' \<or> cmd = ''/payments''
         then cmd_getpayments cfg fine_env 5 w0
         else if startsWith_slash input
         then tg fine_env (plain 5 unknown_command_text) w0
         else tg fine_env (plain 5 default_text) w0)"
proof -
  have rate: "fst (allowRate (now fine_env) 5 (rateMap fresh_world))"
    by (simp add: fresh_world_def allowRate_fresh)
  have m: "snd (allowRate (now fine_env) 5 (rateMap fresh_world)) =
             [5 \<mapsto> \<lparr>count = 1, resetAt = 6000\<rparr>]"
    by (simp add: fresh_world_def fine_env_def allowRate_fresh)
  show ?thesis
    using handleCommand_admitted [OF rate, of cfg u input msg] by (simp add: m)
qed

text \<open>
  Claim C4 as stated fails: \<^verbatim>\<open>profile\<close> and \<^verbatim>\<open>getpayments\<close> without the leading \<^verbatim>\<open>/\<close> are not
  routed as \<^verbatim>\<open>/profile\<close> and \<^verbatim>\<open>/getpayments\<close> are but get the reply to plain text, and there
  is no help command: \<^verbatim>\<open>help\<close> gets the reply to plain text and \<^verbatim>\<open>/help\<close> the reply to an
  unknown command.
\<close>

theorem dispatch_without_marker_counterexample:
  "handleCommand open_config fine_env 5 (Some 7) ''profile'' empty_message fresh_world \<noteq>
     handleCommand open_config fine_env 5 (Some 7) ''/profile'' empty_message fresh_world \<and>
   map parse_mode (sent (snd (handleCommand open_config fine_env 5 (Some 7) ''/profile''
                empty_message fresh_world))) = [Some ''Markdown''] \<and>
   sent (snd (handleCommand open_config fine_env 5 (Some 7) ''profile''
                empty_message fresh_world)) =
     [\<lparr>chat_id = 5, msg_text = ''I only understand a few commands for now. Try /start.'',
       parse_mode = None\<rparr>] \<and>
   sent (snd (handleCommand open_config fine_env 5 (Some 7) ''/getpayments''
                empty_message fresh_world)) =
     [\<lparr>chat_id = 5, msg_text = ''No payment details configured yet.'', parse_mode = None\<rparr>] \<and>
   sent (snd (handleCommand open_config fine_env 5 (Some 7) ''getpayments''
                empty_message fresh_world)) =
     [\<lparr>chat_id = 5, msg_text = ''I only understand a few commands for now. Try /start.'',
       parse_mode = None\<rparr>] \<and>
   sent (snd (handleCommand open_config fine_env 5 (Some 7) ''help''
                empty_message fresh_world)) =
     [\<lparr>chat_id = 5, msg_text = ''I only understand a few commands for now. Try /start.'',
       parse_mode = None\<rparr>] \<and>
   sent (snd (handleCommand open_config fine_env 5 (Some 7) ''/help''
                empty_message fresh_world)) =
     [\<lparr>chat_id = 5, msg_text = ''Unknown command. Use /start to see available commands.'',
       parse_mode = None\<rparr>]"
proof -
  have t: "toLowerCase (first_token ''profile'') = ''profile''"
    "toLowerCase (first_token ''/profile'') = ''/profile''"
    "toLowerCase (first_token ''getpayments'') = ''getpayments''"
    "toLowerCase (first_token ''/getpayments'') = ''/getpayments''"
    "toLowerCase (first_token ''help'') = ''help''"
    "toLowerCase (first_token ''/help'') = ''/help''"
    by (simp_all add: first_token_def is_space_def toLowerCase_def lower_char_def)
  have a: "sent (snd (handleCommand open_config fine_env 5 (Some 7) ''/profile''
                empty_message fresh_world)) = [markdown 5 (profileMsg (Some 7) empty_message)]"
    unfolding run_fresh by (simp add: t tg_world fresh_world_def)
  have b: "sent (snd (handleCommand open_config fine_env 5 (Some 7) ''profile''
                empty_message fresh_world)) = [plain 5 default_text]"
    unfolding run_fresh by (simp add: t tg_world fresh_world_def startsWith_slash_def)
  have c: "sent (snd (handleCommand open_config fine_env 5 (Some 7) ''/getpayments''
                empty_message fresh_world)) = [plain 5 none_configured_text]"
    unfolding run_fresh
    by (simp add: t cmd_getpayments_def airtableGetAll_def open_config_def truthy_def
        tg_def fine_env_def fresh_world_def)
  have d: "sent (snd (handleCommand open_config fine_env 5 (Some 7) ''getpayments''
                empty_message fresh_world)) = [plain 5 default_text]"
    unfolding run_fresh by (simp add: t tg_world fresh_world_def startsWith_slash_def)
  have e: "sent (snd (handleCommand open_config fine_env 5 (Some 7) ''help''
                empty_message fresh_world)) = [plain 5 default_text]"
    unfolding run_fresh by (simp add: t tg_world fresh_world_def startsWith_slash_def)
  have f: "sent (snd (handleCommand open_config fine_env 5 (Some 7) ''/help''
                empty_message fresh_world)) = [plain 5 unknown_command_text]"
    unfolding run_fresh by (simp add: t tg_world fresh_world_def startsWith_slash_def)
  have "parse_mode (markdown 5 (profileMsg (Some 7) empty_message)) \<noteq>
        parse_mode (plain 5 default_text)"
    by (simp add: markdown_def plain_def)
  then have "handleCommand open_config fine_env 5 (Some 7) ''profile'' empty_message fresh_world
      \<noteq> handleCommand open_config fine_env 5 (Some 7) ''/profile'' empty_message fresh_world"
    using a b by auto
  then show ?thesis
    using a b c d e f
    by (simp add: markdown_def plain_def default_text_def none_configured_text_def
        unknown_command_text_def)
qed

section \<open>Markup characters in the replies\<close>

lemma markup_safeText: "filter markup_char (safeText s) = []"
  by (simp add: safeText_def)

lemma markup_lit_dash: "filter markup_char lit_dash = []"
  by (simp add: lit_dash_def markup_char_def)

lemma markup_digits: "filter markup_char (digits n) = []"
proof (induction n rule: digits.induct)
  case (1 n)
  have d: "\<not> markup_char (digit_char k)" if "k < 10" for k
  proof -
    have "digit_char k \<in> set ''0123456789''"
      unfolding digit_char_def using that by (intro nth_mem) simp
    moreover have "\<forall>c \<in> set ''0123456789''. \<not> markup_char c"
      by (simp add: markup_char_def)
    ultimately show ?thesis by blast
  qed
  show ?case
  proof (cases "n < 10")
    case True
    then show ?thesis using d [of n] by (subst digits.simps) simp
  next
    case False
    then show ?thesis using 1 d [of "n mod 10"] by (subst digits.simps) simp
  qed
qed

lemma markup_String_id: "filter markup_char (String_id u) = []"
  by (cases u) (simp_all add: String_id_def String_int_def markup_digits markup_char_def)

lemma markup_start_reply: "filter markup_char start_reply = ''**''"
  by (simp add: start_reply_def nl_def lit_dash_def markup_char_def)

lemma markup_profileMsg: "filter markup_char (profileMsg u m) = ''**''"
  by (simp add: profileMsg_def markup_safeText markup_lit_dash markup_String_id nl_def
      markup_char_def split: option.splits)

lemma markup_updated_text:
  "p \<in> set ALLOWED_PROVIDERS \<Longrightarrow> filter markup_char (updated_text p) = ''**''"
  by (auto simp add: ALLOWED_PROVIDERS_def updated_text_def lit_check_def markup_char_def)

lemma markup_payment_line: "filter markup_char (payment_line r) = ''**''"
  by (simp add: payment_line_def markup_safeText nl_def markup_char_def)

lemma markup_payments_out:
  "filter markup_char (payments_out rs) = concat (replicate (Suc (length rs)) ''**'')"
proof -
  have "filter markup_char (concat (map payment_line rs)) = concat (replicate (length rs) ''**'')"
    by (induction rs) (simp_all add: markup_payment_line)
  then show ?thesis
    by (simp add: payments_out_def nl_def markup_char_def)
qed

lemma airtable_list_sent: "airtable_list e n f w = (r, w1) \<Longrightarrow> sent w1 = sent w"
  by (auto simp add: airtable_list_def Let_def split: net.splits)

lemma airtable_patch_sent: "sent (snd (airtable_patch e i p d w)) = sent w"
  by (simp add: airtable_patch_def Let_def split: net.splits)

lemma airtable_create_sent: "sent (snd (airtable_create e p d w)) = sent w"
  by (simp add: airtable_create_def Let_def split: net.splits)

lemma airtableCreateOrUpdate_sent:
  "airtableCreateOrUpdate cfg e p d w = (r, w1) \<Longrightarrow> sent w1 = sent w"
proof -
  assume a: "airtableCreateOrUpdate cfg e p d w = (r, w1)"
  have "sent (snd (airtableCreateOrUpdate cfg e p d w)) = sent w"
  proof (cases "airtable_list e 100 (\<lambda>r. Provider r = Some p) w")
    case (Pair r0 w0)
    then have "sent w0 = sent w" by (rule airtable_list_sent)
    then show ?thesis using Pair
      by (simp add: airtableCreateOrUpdate_def airtable_patch_sent airtable_create_sent
          split: sum.splits list.splits)
  qed
  then show ?thesis using a by simp
qed

lemma airtableGetAll_cases:
  assumes "airtableGetAll cfg e w = (r, w1)"
  shows "sent w1 = sent w \<and>
         ((\<exists>err. r = Inl err) \<or> r = Inr [] \<or> r = Inr (take 50 (records w)))"
  using assms
  by (cases "airtable e (requests w)")
     (auto simp add: airtableGetAll_def airtable_list_def or_nil_def Let_def split: if_splits)

text \<open>The messages a call of \<^verbatim>\<open>handleCommand\<close> sends with the parse mode Markdown.\<close>

lemma cmd_setpayment_sent:
  "\<exists>ms. sent (snd (cmd_setpayment cfg e chatId userId parts w)) = sent w @ ms \<and>
        (\<forall>m \<in> set ms. parse_mode m = None \<or>
           (\<exists>p \<in> set ALLOWED_PROVIDERS. msg_text m = updated_text p))"
proof -
  let ?p = "toLowerCase (parts ! 1)"
  let ?d = "join '' '' (drop 2 parts)"
  obtain r w1 where up: "airtableCreateOrUpdate cfg e ?p ?d w = (r, w1)"
    by (cases "airtableCreateOrUpdate cfg e ?p ?d w")
  have w1: "sent w1 = sent w"
    using up by (rule airtableCreateOrUpdate_sent)
  show ?thesis
    using up w1
    by (cases r)
       (auto simp add: cmd_setpayment_def Let_def tg_def plain_def markdown_def
          split: net.splits)
qed

lemma cmd_getpayments_sent:
  "\<exists>ms. sent (snd (cmd_getpayments cfg e chatId w)) = sent w @ ms \<and>
        (\<forall>m \<in> set ms. parse_mode m = None \<or>
           msg_text m = payments_out (take 50 (records w)))"
proof -
  obtain r w1 where g: "airtableGetAll cfg e w = (r, w1)"
    by (cases "airtableGetAll cfg e w")
  from airtableGetAll_cases [OF g]
  have w1: "sent w1 = sent w"
    and r: "(\<exists>err. r = Inl err) \<or> r = Inr [] \<or> r = Inr (take 50 (records w))"
    by simp_all
  show ?thesis
    using g w1 r
    by (auto simp add: cmd_getpayments_def Let_def tg_def plain_def markdown_def
          split: net.splits)
qed

lemma handleCommand_sent:
  "\<exists>ms. sent (snd (handleCommand cfg e chatId userId text msg w)) = sent w @ ms \<and>
        (\<forall>m \<in> set ms. parse_mode m = None \<or> msg_text m = start_reply \<or>
           msg_text m = profileMsg userId msg \<or>
           (\<exists>p \<in> set ALLOWED_PROVIDERS. msg_text m = updated_text p) \<or>
           msg_text m = payments_out (take 50 (records w)))"
proof (cases "allowRate (now e) chatId (rateMap w)")
  case (Pair allowed m)
  let ?w0 = "w\<lparr>rateMap := m\<rparr>"
  obtain ms1 where ms1:
    "sent (snd (cmd_setpayment cfg e chatId userId (split_ws (trim text)) ?w0)) = sent w @ ms1"
    "\<forall>m \<in> set ms1. parse_mode m = None \<or>
       (\<exists>p \<in> set ALLOWED_PROVIDERS. msg_text m = updated_text p)"
    using cmd_setpayment_sent [of cfg e chatId userId "split_ws (trim text)" ?w0] by auto
  obtain ms2 where ms2:
    "sent (snd (cmd_getpayments cfg e chatId ?w0)) = sent w @ ms2"
    "\<forall>m \<in> set ms2. parse_mode m = None \<or> msg_text m = payments_out (take 50 (records w))"
    using cmd_getpayments_sent [of cfg e chatId ?w0] by auto
  show ?thesis
    using ms1 ms2
    by (simp add: handleCommand_def Pair Let_def tg_world plain_def markdown_def) blast
qed

text \<open>
  Claim C5, as amended. \<^verbatim>\<open>safeText\<close> leaves none of the characters \<^verbatim>\<open>*\<close>, \<^verbatim>\<open>_\<close>, backtick,
  \<^verbatim>\<open>[\<close> and \<^verbatim>\<open>]\<close> in its result. In every message that a call of \<^verbatim>\<open>handleCommand\<close> sends
  with the parse mode Markdown, the only such characters are the emphasis stars of the
  reply's own template: one pair, or in the payments listing one pair for the header and
  one for each record listed. So the display name, the username and the stored provider
  and details, which these replies interpolate, bring none in. (The claim does not hold
  of the replies sent as plain text, see the counterexample.)
\<close>

theorem markdown_replies_sanitised:
  "set (safeText s) \<inter> {CHR ''*'', CHR ''_'', CHR 0x60, CHR ''['', CHR '']''} = {} \<and>
   (\<forall>m \<in> set (drop (length (sent w))
                  (sent (snd (handleCommand cfg e chatId userId text msg w)))).
      parse_mode m = Some ''Markdown'' \<longrightarrow>
        filter markup_char (msg_text m) = ''**'' \<or>
        filter markup_char (msg_text m) =
          concat (replicate (Suc (length (take 50 (records w)))) ''**''))"
proof -
  obtain ms where ms:
    "sent (snd (handleCommand cfg e chatId userId text msg w)) = sent w @ ms"
    "\<forall>m \<in> set ms. parse_mode m = None \<or> msg_text m = start_reply \<or>
           msg_text m = profileMsg userId msg \<or>
           (\<exists>p \<in> set ALLOWED_PROVIDERS. msg_text m = updated_text p) \<or>
           msg_text m = payments_out (take 50 (records w))"
    using handleCommand_sent [of cfg e chatId userId "text" msg w] by auto
  have "filter markup_char (msg_text m) = ''**'' \<or>
        filter markup_char (msg_text m) =
          concat (replicate (Suc (length (take 50 (records w)))) ''**'')"
    if "m \<in> set ms" and "parse_mode m = Some ''Markdown''" for m
    using ms(2) that
    by (auto simp add: markup_start_reply markup_profileMsg markup_updated_text
        markup_payments_out simp del: replicate.simps)
  moreover have "set (safeText s) \<inter> {CHR ''*'', CHR ''_'', CHR 0x60, CHR ''['', CHR '']''} = {}"
    by (auto simp add: safeText_def markup_char_def)
  ultimately show ?thesis
    by (simp add: ms(1))
qed

theorem markdown_replies_sanitised_witness:
  "sent (snd (handleCommand open_config fine_env 5 (Some 7) ''/profile''
                (text_message 5 (sender 7 ''a*b_c[d]'') ''/profile'') fresh_world)) =
     [\<lparr>chat_id = 5,
       msg_text = ''*Profile*'' @ [CHR 0x0A] @ ''Name: abcd'' @ [CHR 0x0A] @ ''ID: 7'' @
                  [CHR 0x0A] @ ''Telegram: @abcd'',
       parse_mode = Some ''Markdown''\<rparr>] \<and>
   filter markup_char
     (msg_text (hd (sent (snd (handleCommand open_config fine_env 5 (Some 7) ''/profile''
                (text_message 5 (sender 7 ''a*b_c[d]'') ''/profile'') fresh_world))))) = ''**''"
proof -
  let ?run = "handleCommand open_config fine_env 5 (Some 7) ''/profile''
                (text_message 5 (sender 7 ''a*b_c[d]'') ''/profile'') fresh_world"
  have t: "toLowerCase (first_token ''/profile'') = ''/profile''"
    by (simp add: first_token_def is_space_def toLowerCase_def lower_char_def)
  have s: "sent (snd ?run) =
     [\<lparr>chat_id = 5,
       msg_text = ''*Profile*'' @ [CHR 0x0A] @ ''Name: abcd'' @ [CHR 0x0A] @ ''ID: 7'' @
                  [CHR 0x0A] @ ''Telegram: @abcd'',
       parse_mode = Some ''Markdown''\<rparr>]"
    unfolding run_fresh
    by (simp add: t tg_world fresh_world_def markdown_def profileMsg_def profile_name_def
        text_message_def sender_def or_else_def truthy_def safeText_def markup_char_def nl_def
        String_id_def String_int_def digits.simps digit_char_def)
  have "\<forall>m \<in> set (drop (length (sent fresh_world)) (sent (snd ?run))).
      parse_mode m = Some ''Markdown'' \<longrightarrow>
        filter markup_char (msg_text m) = ''**'' \<or>
        filter markup_char (msg_text m) =
          concat (replicate (Suc (length (take 50 (records fresh_world)))) ''**'')"
    using markdown_replies_sanitised [of None fresh_world open_config fine_env 5 "Some 7"
        "''/profile''" "text_message 5 (sender 7 ''a*b_c[d]'') ''/profile''"]
    by simp
  moreover have "sent fresh_world = []" and "records fresh_world = []"
    by (simp_all add: fresh_world_def)
  ultimately have "filter markup_char (msg_text (hd (sent (snd ?run)))) = ''**''"
    by (simp add: s)
  then show ?thesis using s by simp
qed

text \<open>
  Claim C5 as stated fails: without a configured store, \<^verbatim>\<open>/setpayment\<close> echoes the details
  as the sender wrote them, in a message sent as plain text.
\<close>

theorem plain_echo_counterexample:
  "sent (snd (handleCommand open_config fine_env 5 (Some 7) ''/setpayment jazzcash *x*_[y]''
                empty_message fresh_world)) =
     [\<lparr>chat_id = 5, msg_text = ''Configured jazzcash: *x*_[y]'', parse_mode = None\<rparr>]"
proof -
  have t: "toLowerCase (first_token ''/setpayment jazzcash *x*_[y]'') = ''/setpayment''"
    by (simp add: first_token_def is_space_def toLowerCase_def lower_char_def)
  have p: "split_ws (trim ''/setpayment jazzcash *x*_[y]'') =
             [''/setpayment'', ''jazzcash'', ''*x*_[y]'']"
    by (simp add: trim_def is_space_def)
  have a: "isAdmin open_config (Some 7)"
    by (simp add: isAdmin_def open_config_ids)
  have low: "toLowerCase ''jazzcash'' = ''jazzcash''"
    by (simp add: toLowerCase_def lower_char_def)
  have cfg: "\<not> truthy (AIRTABLE_API_KEY open_config)"
    by (simp add: open_config_def truthy_def)
  have r: "handleCommand open_config fine_env 5 (Some 7) ''/setpayment jazzcash *x*_[y]''
             empty_message fresh_world =
           cmd_setpayment open_config fine_env 5 (Some 7)
             [''/setpayment'', ''jazzcash'', ''*x*_[y]'']
             (fresh_world\<lparr>rateMap := [5 \<mapsto> \<lparr>count = 1, resetAt = 6000\<rparr>]\<rparr>)"
    unfolding run_fresh by (simp add: t p)
  show ?thesis
    unfolding r
    by (simp add: cmd_setpayment_def a low cfg ALLOWED_PROVIDERS_def tg_def fine_env_def
        plain_def configured_text_def fresh_world_def)
qed

end
